theory Spec2Isabelle
  imports Main "HOL-Library.Sublist"
begin

section \<open>Errors\<close>

text \<open>
  Go's \<^verbatim>\<open>error\<close> values that the three models handle.  A \<open>sql_error\<close> is a value
  produced by \<^verbatim>\<open>database/sql\<close> or by the MySQL driver: \<^verbatim>\<open>sql.ErrNoRows\<close>, a server
  error with its number (1062 duplicate entry, 1210 incorrect arguments, 3024 execution
  time exceeded, ...), or any other driver failure (lost connection, a column that does
  not scan).  An \<open>error\<close> is what a model function returns: one of the sentinels of package
  \<^verbatim>\<open>utils\<close> or a \<open>sql_error\<close> handed on as it came (\<open>SqlError\<close>).
\<close>

datatype sql_error = ErrNoRows | MySQLError nat | ErrDriver nat

datatype error = DbErrNotFound | DbErrSqlOperation | DbErrOther nat | SqlError sql_error

text \<open>
  \<^verbatim>\<open>utils.ConvertMysqlErrToDbErr\<close> is declared outside the given sources.  Every function
  that calls it takes it as the parameter \<open>conv\<close>; \<open>DbErrOther\<close> stands for the sentinels
  of \<^verbatim>\<open>utils\<close> that the given sources never name.
\<close>

type_synonym converter = "sql_error \<Rightarrow> error"

section \<open>The witness table and the store\<close>

record BatchWitness =
  ID :: nat
  CreatedAt :: nat
  UpdatedAt :: nat
  DeletedAt :: "nat option"
  Height :: int
  WitnessData :: string
  Status :: int

definition StatusPublished :: int where "StatusPublished = 0"
definition StatusReceived :: int where "StatusReceived = 1"
definition StatusFinished :: int where "StatusFinished = 2"

text \<open>
  The state of \<^verbatim>\<open>utils.DB\<close> as one model sees it: the rows of its table in primary-key
  order, the table's AUTO_INCREMENT counter, the configured \<^verbatim>\<open>maxExecutionTime\<close> (a
  \<^verbatim>\<open>time.Duration\<close>, in nanoseconds) and, as a ghost field, the text of every statement
  handed to the store so far, oldest first.
\<close>

record DB =
  rows :: "BatchWitness list"
  auto_increment :: nat
  maxExecutionTime :: int
  issued :: "string list"

text \<open>
  What the store does during one call, which the Go code cannot choose: whether
  \<^verbatim>\<open>Begin\<close> fails, whether the \<open>i\<close>-th statement of the call fails before it runs (a
  timeout, a lost connection), whether scanning the \<open>k\<close>-th returned row fails, and the
  value of \<^verbatim>\<open>NOW()\<close> when the \<open>i\<close>-th statement runs.  Only the failures that the
  source checks (\<^verbatim>\<open>if err != nil\<close>) are modelled: the results of \<^verbatim>\<open>tx.Commit()\<close> and
  \<^verbatim>\<open>tx.Rollback()\<close> are discarded by the source, and both are taken to take effect.
\<close>

record env =
  begin_err :: "sql_error option"
  stmt_err :: "nat \<Rightarrow> sql_error option"
  scan_err :: "nat \<Rightarrow> sql_error option"
  now :: "nat \<Rightarrow> nat"

section \<open>The gateway: utils.DB and utils.Transaction\<close>

fun digits :: "nat \<Rightarrow> string" where
  "digits n = (if n < 10 then [char_of (48 + n)] else digits (n div 10) @ [char_of (48 + n mod 10)])"

declare digits.simps [simp del]

definition Sprintf_d :: "int \<Rightarrow> string" where
  "Sprintf_d i = (if i < 0 then CHR ''-'' # digits (nat (- i)) else digits (nat i))"

text \<open>\<^verbatim>\<open>Duration.Milliseconds\<close>: integer division of the nanoseconds, truncating towards zero.\<close>

definition Milliseconds :: "int \<Rightarrow> int" where
  "Milliseconds d = (if 0 \<le> d then d div 1000000 else - ((- d) div 1000000))"

definition timeoutQuery :: "DB \<Rightarrow> string \<Rightarrow> string" where
  "timeoutQuery db query =
     ''/*+ MAX_EXECUTION_TIME('' @ Sprintf_d (Milliseconds (maxExecutionTime db)) @ '') */ '' @ query"

text \<open>
  A statement is handed to the store as its text together with what it denotes on the
  table.  A write denotes a function of \<^verbatim>\<open>NOW()\<close> and the state that fails or returns
  the number of affected rows and the new state; a read denotes a function of the rows
  that fails or returns the result set.
\<close>

type_synonym write_stmt = "nat \<Rightarrow> DB \<Rightarrow> sql_error + int \<times> DB"
type_synonym 'r read_stmt = "BatchWitness list \<Rightarrow> sql_error + 'r list"

text \<open>\<^verbatim>\<open>sql.Result\<close>, of which the sources read \<^verbatim>\<open>RowsAffected() (int64, error)\<close> only.\<close>

record sql_result =
  RowsAffected :: "sql_error + int"

definition Exec :: "env \<Rightarrow> nat \<Rightarrow> DB \<Rightarrow> string \<Rightarrow> write_stmt \<Rightarrow> (sql_error + sql_result) \<times> DB" where
  "Exec e i db query stmt =
     (let db1 = db\<lparr>issued := issued db @ [query]\<rparr> in
      case stmt_err e i of
        Some err \<Rightarrow> (Inl err, db1)
      | None \<Rightarrow> (case stmt (now e i) db1 of
                   Inl err \<Rightarrow> (Inl err, db1)
                 | Inr (n, db2) \<Rightarrow> (Inr \<lparr>RowsAffected = Inr n\<rparr>, db2)))"

definition Query :: "env \<Rightarrow> nat \<Rightarrow> DB \<Rightarrow> string \<Rightarrow> 'r read_stmt \<Rightarrow> (sql_error + 'r list) \<times> DB" where
  "Query e i db query stmt =
     (let db1 = db\<lparr>issued := issued db @ [query]\<rparr> in
      case stmt_err e i of
        Some err \<Rightarrow> (Inl err, db1)
      | None \<Rightarrow> (stmt (rows db1), db1))"

definition ExecWithTimeout :: "env \<Rightarrow> nat \<Rightarrow> DB \<Rightarrow> string \<Rightarrow> write_stmt \<Rightarrow> (sql_error + sql_result) \<times> DB" where
  "ExecWithTimeout e i db query stmt = Exec e i db (timeoutQuery db query) stmt"

definition QueryWithTimeout :: "env \<Rightarrow> nat \<Rightarrow> DB \<Rightarrow> string \<Rightarrow> 'r read_stmt \<Rightarrow> (sql_error + 'r list) \<times> DB" where
  "QueryWithTimeout e i db query stmt = Query e i db (timeoutQuery db query) stmt"

text \<open>
  \<^verbatim>\<open>QueryRowWithTimeout\<close> returns a \<^verbatim>\<open>*sql.Row\<close>: the outcome of the query, kept until
  \<^verbatim>\<open>Scan\<close>.  \<^verbatim>\<open>Row.Scan\<close> returns the query's error, \<^verbatim>\<open>sql.ErrNoRows\<close> on an empty
  result, and otherwise scans the first row.
\<close>

definition QueryRowWithTimeout :: "env \<Rightarrow> nat \<Rightarrow> DB \<Rightarrow> string \<Rightarrow> 'r read_stmt \<Rightarrow> (sql_error + 'r list) \<times> DB" where
  "QueryRowWithTimeout e i db query stmt = Query e i db (timeoutQuery db query) stmt"

definition Row_Scan :: "env \<Rightarrow> nat \<Rightarrow> sql_error + 'r list \<Rightarrow> sql_error + 'r" where
  "Row_Scan e k row =
     (case row of
        Inl err \<Rightarrow> Inl err
      | Inr [] \<Rightarrow> Inl ErrNoRows
      | Inr (r # rs) \<Rightarrow> (case scan_err e k of Some err \<Rightarrow> Inl err | None \<Rightarrow> Inr r))"

text \<open>
  A transaction is the snapshot that \<^verbatim>\<open>Rollback\<close> restores.  \<^verbatim>\<open>utils.Transaction\<close>
  embeds \<^verbatim>\<open>*sql.Tx\<close> and adds nothing, so \<^verbatim>\<open>tx.Query\<close> and \<^verbatim>\<open>tx.Exec\<close> pass the
  statement text on as it is.
\<close>

record Transaction =
  saved :: "BatchWitness list"

definition BeginTransaction :: "env \<Rightarrow> DB \<Rightarrow> sql_error + Transaction" where
  "BeginTransaction e db =
     (case begin_err e of Some err \<Rightarrow> Inl err | None \<Rightarrow> Inr \<lparr>saved = rows db\<rparr>)"

definition Rollback :: "Transaction \<Rightarrow> DB \<Rightarrow> DB" where
  "Rollback tx db = db\<lparr>rows := saved tx\<rparr>"

definition Commit :: "Transaction \<Rightarrow> DB \<Rightarrow> DB" where
  "Commit tx db = db"

definition tx_Query :: "env \<Rightarrow> nat \<Rightarrow> DB \<Rightarrow> string \<Rightarrow> 'r read_stmt \<Rightarrow> (sql_error + 'r list) \<times> DB" where
  "tx_Query e i db query stmt = Query e i db query stmt"

definition tx_Exec :: "env \<Rightarrow> nat \<Rightarrow> DB \<Rightarrow> string \<Rightarrow> write_stmt \<Rightarrow> (sql_error + sql_result) \<times> DB" where
  "tx_Exec e i db query stmt = Exec e i db query stmt"

text \<open>
  \<^verbatim>\<open>for rows.Next() { err = rows.Scan(...); if err != nil { return nil, err }; xs = append(xs, x) }\<close>
\<close>

fun scan_rows :: "env \<Rightarrow> nat \<Rightarrow> 'r list \<Rightarrow> 'r list \<Rightarrow> sql_error + 'r list" where
  "scan_rows e k acc [] = Inr acc"
| "scan_rows e k acc (r # rs) =
     (case scan_err e k of
        Some err \<Rightarrow> Inl err
      | None \<Rightarrow> scan_rows e (Suc k) (acc @ [r]) rs)"

section \<open>The statements of the witness model\<close>

text \<open>
  The table is created with \<^verbatim>\<open>height BIGINT NOT NULL UNIQUE\<close>: an insert fails with
  MySQL error 1062 when any row, soft-deleted or not, has the height.  A negative
  \<^verbatim>\<open>LIMIT\<close> or \<^verbatim>\<open>OFFSET\<close> argument is rejected by the server (error 1210).
\<close>

definition sql_insert :: "int \<Rightarrow> string \<Rightarrow> int \<Rightarrow> write_stmt" where
  "sql_insert height witness_data status t db =
     (if height \<in> set (map Height (rows db)) then Inl (MySQLError 1062)
      else Inr (1, db\<lparr>rows := rows db @
                  [\<lparr>ID = auto_increment db, CreatedAt = t, UpdatedAt = t, DeletedAt = None,
                    Height = height, WitnessData = witness_data, Status = status\<rparr>],
                auto_increment := Suc (auto_increment db)\<rparr>))"

text \<open>\<^verbatim>\<open>UPDATE t SET status = ?, updated_at = NOW() WHERE height = ?\<close>; the count is of the rows changed.\<close>

definition sql_update_status :: "int \<Rightarrow> int \<Rightarrow> write_stmt" where
  "sql_update_status status height t db =
     Inr (int (length (filter (\<lambda>w. Height w = height \<and> (Status w \<noteq> status \<or> UpdatedAt w \<noteq> t)) (rows db))),
          db\<lparr>rows := map (\<lambda>w. if Height w = height then w\<lparr>UpdatedAt := t, Status := status\<rparr> else w) (rows db)\<rparr>)"

text \<open>
  \<^verbatim>\<open>SELECT ... WHERE status = ? AND deleted_at IS NULL ORDER BY height ASC LIMIT ? FOR UPDATE\<close>.
  The heights of a table are distinct, so the order is determined; \<open>sort_key\<close> would
  keep rows of equal height in table order.  The lock clause has no meaning for one call
  run on its own.
\<close>

definition sql_select_by_status :: "int \<Rightarrow> int \<Rightarrow> BatchWitness read_stmt" where
  "sql_select_by_status status lim t =
     (if lim < 0 then Inl (MySQLError 1210)
      else Inr (take (nat lim) (sort_key Height (filter (\<lambda>w. Status w = status \<and> DeletedAt w = None) t))))"

text \<open>\<^verbatim>\<open>SELECT ... WHERE height = ? AND status = ? AND deleted_at IS NULL ORDER BY height ASC\<close>\<close>

definition sql_select_by_height_status :: "int \<Rightarrow> int \<Rightarrow> BatchWitness read_stmt" where
  "sql_select_by_height_status height status t =
     Inr (sort_key Height (filter (\<lambda>w. Height w = height \<and> Status w = status \<and> DeletedAt w = None) t))"

section \<open>The witness model: claim transactions\<close>

record defaultWitnessModel =
  table :: string

text \<open>
  \<^verbatim>\<open>for _, w := range witnesses { _, err = tx.Exec(updateQuery, afterStatus, w.Height); ... }\<close>:
  the \<open>i\<close>-th statement of the call updates the first remaining witness.  The state is
  returned also when an update fails, as the transaction has it at that moment.
\<close>

fun update_each :: "env \<Rightarrow> nat \<Rightarrow> string \<Rightarrow> int \<Rightarrow> BatchWitness list \<Rightarrow> DB \<Rightarrow> error option \<times> DB" where
  "update_each e i updateQuery afterStatus [] db = (None, db)"
| "update_each e i updateQuery afterStatus (w # ws) db =
     (case tx_Exec e i db updateQuery (sql_update_status afterStatus (Height w)) of
        (Inl err, db1) \<Rightarrow> (Some (SqlError err), db1)
      | (Inr result, db1) \<Rightarrow> update_each e (Suc i) updateQuery afterStatus ws db1)"

text \<open>
  The deferred function runs on every return after \<^verbatim>\<open>BeginTransaction\<close> succeeded: it
  rolls back when the named result \<^verbatim>\<open>err\<close> is set and commits otherwise.
\<close>

definition deferred :: "Transaction \<Rightarrow> (error + 'a) \<times> DB \<Rightarrow> (error + 'a) \<times> DB" where
  "deferred tx r =
     (case r of
        (Inl err, db1) \<Rightarrow> (Inl err, Rollback tx db1)
      | (Inr v, db1) \<Rightarrow> (Inr v, Commit tx db1))"

text \<open>
  What both claim functions do with the outcome of their select: the scan loop, the check
  for an empty list and the update loop, whose statements are the second and later ones of
  the call.
\<close>

definition claim_rows ::
  "converter \<Rightarrow> defaultWitnessModel \<Rightarrow> env \<Rightarrow> int \<Rightarrow> (sql_error + BatchWitness list) \<times> DB
     \<Rightarrow> (error + BatchWitness list) \<times> DB" where
  "claim_rows conv m e afterStatus r =
     (case r of
        (Inl err, db1) \<Rightarrow> (Inl (conv err), db1)
      | (Inr rs, db1) \<Rightarrow>
          (case scan_rows e 0 [] rs of
             Inl err \<Rightarrow> (Inl (SqlError err), db1)
           | Inr witnesses \<Rightarrow>
               if length witnesses = 0 then (Inl DbErrNotFound, db1)
               else (case update_each e 1
                            (''UPDATE '' @ table m @ '' SET status = ?, updated_at = NOW() WHERE height = ?'')
                            afterStatus witnesses db1 of
                       (Some err, db2) \<Rightarrow> (Inl err, db2)
                     | (None, db2) \<Rightarrow> (Inr witnesses, db2))))"

definition GetAndUpdateBatchesWitnessByStatus ::
  "converter \<Rightarrow> defaultWitnessModel \<Rightarrow> env \<Rightarrow> DB \<Rightarrow> int \<Rightarrow> int \<Rightarrow> int
     \<Rightarrow> (error + BatchWitness list) \<times> DB" where
  "GetAndUpdateBatchesWitnessByStatus conv m e db beforeStatus afterStatus count =
     (case BeginTransaction e db of
        Inl err \<Rightarrow> (Inl (SqlError err), db)
      | Inr tx \<Rightarrow>
          deferred tx
            (claim_rows conv m e afterStatus
               (tx_Query e 0 db
                  (''SELECT id, created_at, updated_at, deleted_at, height, witness_data, status FROM ''
                     @ table m @
                   '' WHERE status = ? AND deleted_at IS NULL ORDER BY height ASC LIMIT ? FOR UPDATE'')
                  (sql_select_by_status beforeStatus count))))"

definition GetAndUpdateBatchesWitnessByHeight ::
  "converter \<Rightarrow> defaultWitnessModel \<Rightarrow> env \<Rightarrow> DB \<Rightarrow> int \<Rightarrow> int \<Rightarrow> int
     \<Rightarrow> (error + BatchWitness list) \<times> DB" where
  "GetAndUpdateBatchesWitnessByHeight conv m e db height beforeStatus afterStatus =
     (case BeginTransaction e db of
        Inl err \<Rightarrow> (Inl (SqlError err), db)
      | Inr tx \<Rightarrow>
          deferred tx
            (claim_rows conv m e afterStatus
               (tx_Query e 0 db
                  (''SELECT id, created_at, updated_at, deleted_at, height, witness_data, status FROM ''
                     @ table m @
                   '' WHERE height = ? AND status = ? AND deleted_at IS NULL ORDER BY height ASC'')
                  (sql_select_by_height_status height beforeStatus))))"

section \<open>The witness model: inserts, the status setter and the reads\<close>

text \<open>
  \<^verbatim>\<open>for _, w := range witness { _, err := m.db.Exec(query, w.Height, w.WitnessData, w.Status); ... }\<close>:
  each insert is a statement of its own, outside any transaction.
\<close>

fun insert_each :: "env \<Rightarrow> nat \<Rightarrow> string \<Rightarrow> BatchWitness list \<Rightarrow> DB \<Rightarrow> error option \<times> DB" where
  "insert_each e i query [] db = (None, db)"
| "insert_each e i query (w # ws) db =
     (case Exec e i db query (sql_insert (Height w) (WitnessData w) (Status w)) of
        (Inl err, db1) \<Rightarrow> (Some (SqlError err), db1)
      | (Inr result, db1) \<Rightarrow> insert_each e (Suc i) query ws db1)"

definition CreateBatchWitness ::
  "defaultWitnessModel \<Rightarrow> env \<Rightarrow> DB \<Rightarrow> BatchWitness list \<Rightarrow> error option \<times> DB" where
  "CreateBatchWitness m e db witness =
     (if length witness = 0 then (None, db)
      else insert_each e 0
             (''INSERT INTO '' @ table m @
              '' (height, witness_data, status, created_at, updated_at) VALUES (?, ?, ?, NOW(), NOW())'')
             witness db)"

definition UpdateBatchWitnessStatus ::
  "defaultWitnessModel \<Rightarrow> env \<Rightarrow> DB \<Rightarrow> BatchWitness \<Rightarrow> int \<Rightarrow> error option \<times> DB" where
  "UpdateBatchWitnessStatus m e db witness status =
     (case Exec e 0 db
             (''UPDATE '' @ table m @ '' SET status = ?, updated_at = NOW() WHERE height = ?'')
             (sql_update_status status (Height witness)) of
        (Inl err, db1) \<Rightarrow> (Some (SqlError err), db1)
      | (Inr result, db1) \<Rightarrow> (None, db1))"

text \<open>\<^verbatim>\<open>SELECT height ... WHERE status = ? AND deleted_at IS NULL ORDER BY height ASC LIMIT ? OFFSET ?\<close>\<close>

definition sql_select_heights :: "int \<Rightarrow> int \<Rightarrow> int \<Rightarrow> int read_stmt" where
  "sql_select_heights status lim off t =
     (if lim < 0 \<or> off < 0 then Inl (MySQLError 1210)
      else Inr (take (nat lim) (drop (nat off)
                  (map Height (sort_key Height (filter (\<lambda>w. Status w = status \<and> DeletedAt w = None) t))))))"

definition GetAllBatchHeightsByStatus ::
  "converter \<Rightarrow> defaultWitnessModel \<Rightarrow> env \<Rightarrow> DB \<Rightarrow> int \<Rightarrow> int \<Rightarrow> int \<Rightarrow> (error + int list) \<times> DB" where
  "GetAllBatchHeightsByStatus conv m e db status limit offset =
     (case QueryWithTimeout e 0 db
             (''SELECT height FROM '' @ table m @
              '' WHERE status = ? AND deleted_at IS NULL ORDER BY height ASC LIMIT ? OFFSET ?'')
             (sql_select_heights status limit offset) of
        (Inl err, db1) \<Rightarrow> (Inl (conv err), db1)
      | (Inr rs, db1) \<Rightarrow>
          (case scan_rows e 0 [] rs of
             Inl err \<Rightarrow> (Inl (SqlError err), db1)
           | Inr witnessHeights \<Rightarrow>
               if length witnessHeights = 0 then (Inl DbErrNotFound, db1)
               else (Inr witnessHeights, db1)))"

text \<open>\<^verbatim>\<open>SELECT height ... WHERE deleted_at IS NULL ORDER BY height DESC LIMIT 1\<close>\<close>

definition sql_select_latest_height :: "int read_stmt" where
  "sql_select_latest_height t =
     Inr (take 1 (rev (map Height (sort_key Height (filter (\<lambda>w. DeletedAt w = None) t)))))"

text \<open>\<^verbatim>\<open>SELECT ... WHERE height = ? AND deleted_at IS NULL LIMIT 1\<close>\<close>

definition sql_select_by_height :: "int \<Rightarrow> BatchWitness read_stmt" where
  "sql_select_by_height height t =
     Inr (take 1 (filter (\<lambda>w. Height w = height \<and> DeletedAt w = None) t))"

text \<open>
  \<^verbatim>\<open>SELECT ... WHERE status = ? AND deleted_at IS NULL LIMIT 1\<close>: no \<^verbatim>\<open>ORDER BY\<close>, so the
  first match in the store's scan order, which is the order of \<open>rows\<close>.
\<close>

definition sql_select_first_by_status :: "int \<Rightarrow> BatchWitness read_stmt" where
  "sql_select_first_by_status status t =
     Inr (take 1 (filter (\<lambda>w. Status w = status \<and> DeletedAt w = None) t))"

definition sql_count_all :: "int read_stmt" where
  "sql_count_all t = Inr [int (length (filter (\<lambda>w. DeletedAt w = None) t))]"

definition sql_count_by_status :: "int \<Rightarrow> int read_stmt" where
  "sql_count_by_status status t =
     Inr [int (length (filter (\<lambda>w. Status w = status \<and> DeletedAt w = None) t))]"

text \<open>The store's behaviour for the rest of a call, after \<open>n\<close> statements and \<open>k\<close> scans.\<close>

definition later :: "nat \<Rightarrow> nat \<Rightarrow> env \<Rightarrow> env" where
  "later n k e =
     \<lparr>begin_err = begin_err e, stmt_err = (\<lambda>i. stmt_err e (n + i)),
      scan_err = (\<lambda>i. scan_err e (k + i)), now = (\<lambda>i. now e (n + i))\<rparr>"

definition GetLatestBatchWitnessHeight ::
  "converter \<Rightarrow> defaultWitnessModel \<Rightarrow> env \<Rightarrow> DB \<Rightarrow> (error + int) \<times> DB" where
  "GetLatestBatchWitnessHeight conv m e db =
     (case QueryRowWithTimeout e 0 db
             (''SELECT height FROM '' @ table m @
              '' WHERE deleted_at IS NULL ORDER BY height DESC LIMIT 1'')
             sql_select_latest_height of
        (row, db1) \<Rightarrow>
          (case Row_Scan e 0 row of
             Inl err \<Rightarrow> if err = ErrNoRows then (Inl DbErrNotFound, db1) else (Inl (conv err), db1)
           | Inr height \<Rightarrow> (Inr height, db1)))"

definition GetBatchWitnessByHeight ::
  "converter \<Rightarrow> defaultWitnessModel \<Rightarrow> env \<Rightarrow> DB \<Rightarrow> int \<Rightarrow> (error + BatchWitness) \<times> DB" where
  "GetBatchWitnessByHeight conv m e db height =
     (case QueryRowWithTimeout e 0 db
             (''SELECT id, created_at, updated_at, deleted_at, height, witness_data, status FROM ''
                @ table m @ '' WHERE height = ? AND deleted_at IS NULL LIMIT 1'')
             (sql_select_by_height height) of
        (row, db1) \<Rightarrow>
          (case Row_Scan e 0 row of
             Inl err \<Rightarrow> if err = ErrNoRows then (Inl DbErrNotFound, db1) else (Inl (conv err), db1)
           | Inr witness \<Rightarrow> (Inr witness, db1)))"

definition GetLatestBatchWitness ::
  "converter \<Rightarrow> defaultWitnessModel \<Rightarrow> env \<Rightarrow> DB \<Rightarrow> (error + BatchWitness) \<times> DB" where
  "GetLatestBatchWitness conv m e db =
     (case QueryRowWithTimeout e 0 db
             (''SELECT height FROM '' @ table m @
              '' WHERE deleted_at IS NULL ORDER BY height DESC LIMIT 1'')
             sql_select_latest_height of
        (row, db1) \<Rightarrow>
          (case Row_Scan e 0 row of
             Inl err \<Rightarrow> if err = ErrNoRows then (Inl DbErrNotFound, db1) else (Inl (conv err), db1)
           | Inr height \<Rightarrow> GetBatchWitnessByHeight conv m (later 1 1 e) db1 height))"

definition GetLatestBatchWitnessByStatus ::
  "converter \<Rightarrow> defaultWitnessModel \<Rightarrow> env \<Rightarrow> DB \<Rightarrow> int \<Rightarrow> (error + BatchWitness) \<times> DB" where
  "GetLatestBatchWitnessByStatus conv m e db status =
     (case QueryRowWithTimeout e 0 db
             (''SELECT id, created_at, updated_at, deleted_at, height, witness_data, status FROM ''
                @ table m @ '' WHERE status = ? AND deleted_at IS NULL LIMIT 1'')
             (sql_select_first_by_status status) of
        (row, db1) \<Rightarrow>
          (case Row_Scan e 0 row of
             Inl err \<Rightarrow> if err = ErrNoRows then (Inl DbErrNotFound, db1) else (Inl (conv err), db1)
           | Inr witness \<Rightarrow> (Inr witness, db1)))"

text \<open>One count: \<^verbatim>\<open>row := m.db.QueryRowWithTimeout(query, ...); err = row.Scan(&count)\<close>.\<close>

definition count_query ::
  "converter \<Rightarrow> env \<Rightarrow> nat \<Rightarrow> DB \<Rightarrow> string \<Rightarrow> int read_stmt \<Rightarrow> (error + int) \<times> DB" where
  "count_query conv e i db query stmt =
     (case QueryRowWithTimeout e i db query stmt of
        (row, db1) \<Rightarrow>
          (case Row_Scan e i row of
             Inl err \<Rightarrow> (Inl (conv err), db1)
           | Inr count \<Rightarrow> (Inr count, db1)))"

definition GetRowCounts ::
  "converter \<Rightarrow> defaultWitnessModel \<Rightarrow> env \<Rightarrow> DB \<Rightarrow> (error + int list) \<times> DB" where
  "GetRowCounts conv m e db =
     (case count_query conv e 0 db
             (''SELECT COUNT(*) FROM '' @ table m @ '' WHERE deleted_at IS NULL'') sql_count_all of
        (Inl err, db1) \<Rightarrow> (Inl err, db1)
      | (Inr count, db1) \<Rightarrow>
     (case count_query conv e 1 db1
             (''SELECT COUNT(*) FROM '' @ table m @ '' WHERE status = ? AND deleted_at IS NULL'')
             (sql_count_by_status StatusPublished) of
        (Inl err, db2) \<Rightarrow> (Inl err, db2)
      | (Inr publishedCount, db2) \<Rightarrow>
     (case count_query conv e 2 db2
             (''SELECT COUNT(*) FROM '' @ table m @ '' WHERE status = ? AND deleted_at IS NULL'')
             (sql_count_by_status StatusReceived) of
        (Inl err, db3) \<Rightarrow> (Inl err, db3)
      | (Inr pendingCount, db3) \<Rightarrow>
     (case count_query conv e 3 db3
             (''SELECT COUNT(*) FROM '' @ table m @ '' WHERE status = ? AND deleted_at IS NULL'')
             (sql_count_by_status StatusFinished) of
        (Inl err, db4) \<Rightarrow> (Inl err, db4)
      | (Inr finishedCount, db4) \<Rightarrow>
          (Inr [count, publishedCount, pendingCount, finishedCount], db4)))))"

section \<open>The proof model: CreateProof\<close>

text \<open>
  \<^verbatim>\<open>CreateProof\<close> writes to the proof table, whose contents no property below depends on:
  its outcome is a function of what \<^verbatim>\<open>m.db.Exec\<close> answers, so the store's \<^verbatim>\<open>Exec\<close> is
  the parameter \<open>db_Exec\<close>, from the statement text and the bound arguments to the error
  or the \<^verbatim>\<open>sql.Result\<close>.  Of \<^verbatim>\<open>Proof\<close>, the fields that the insert binds are modelled; the
  id and the timestamps are assigned by the store.  \<^verbatim>\<open>defaultProofModel\<close> has the fields
  of \<^verbatim>\<open>defaultWitnessModel\<close>.
\<close>

datatype sql_value = SqlInt int | SqlText string

record Proof =
  ProofInfo :: string
  CexAssetListCommitments :: string
  AccountTreeRoots :: string
  BatchCommitment :: string
  AssetsCount :: int
  BatchNumber :: int

type_synonym defaultProofModel = defaultWitnessModel

definition CreateProof ::
  "(string \<Rightarrow> sql_value list \<Rightarrow> sql_error + sql_result) \<Rightarrow> defaultProofModel \<Rightarrow> Proof \<Rightarrow> error option" where
  "CreateProof db_Exec m row =
     (case db_Exec
             (''INSERT INTO '' @ table m @
              '' (proof_info, cex_asset_list_commitments, account_tree_roots, batch_commitment, assets_count, batch_number, created_at, updated_at) VALUES (?, ?, ?, ?, ?, ?, NOW(), NOW())'')
             [SqlText (ProofInfo row), SqlText (CexAssetListCommitments row),
              SqlText (AccountTreeRoots row), SqlText (BatchCommitment row),
              SqlInt (AssetsCount row), SqlInt (BatchNumber row)] of
        Inl err \<Rightarrow> Some (SqlError err)
      | Inr result \<Rightarrow>
          (case RowsAffected result of
             Inl err \<Rightarrow> Some (SqlError err)
           | Inr rowsAffected \<Rightarrow>
               if rowsAffected = 0 then Some DbErrSqlOperation else None))"

section \<open>Notions used by the properties\<close>

text \<open>
  \<open>advanced clock i n a r r'\<close>: the row \<open>r'\<close> is \<open>r\<close> with its status set to \<open>a\<close> and its
  \<^verbatim>\<open>updated_at\<close> set to \<^verbatim>\<open>NOW()\<close> of one of the \<open>n\<close> statements from the \<open>i\<close>-th on.
\<close>

definition advanced :: "(nat \<Rightarrow> nat) \<Rightarrow> nat \<Rightarrow> nat \<Rightarrow> int \<Rightarrow> BatchWitness \<Rightarrow> BatchWitness \<Rightarrow> bool" where
  "advanced clock i n a r r' =
     (r' = r\<lparr>UpdatedAt := UpdatedAt r', Status := a\<rparr> \<and> UpdatedAt r' \<in> set (map clock [i..<i + n]))"

text \<open>The statements that a call handed to the store, from the states before and after it.\<close>

definition issued_by :: "DB \<Rightarrow> DB \<Rightarrow> string list" where
  "issued_by db db' = drop (length (issued db)) (issued db')"

definition carries_hint :: "DB \<Rightarrow> string \<Rightarrow> bool" where
  "carries_hint db s =
     prefix (''/*+ MAX_EXECUTION_TIME('' @ Sprintf_d (Milliseconds (maxExecutionTime db)) @ '') */ '') s"

text \<open>
  \<open>issued_only P db db'\<close>: from \<open>db\<close> to \<open>db'\<close> the configured execution time is kept, the
  statements issued before are kept, and every statement issued since satisfies \<open>P\<close>.
\<close>

definition issued_only :: "(string \<Rightarrow> bool) \<Rightarrow> DB \<Rightarrow> DB \<Rightarrow> bool" where
  "issued_only P db db' =
     (maxExecutionTime db' = maxExecutionTime db \<and> prefix (issued db) (issued db') \<and>
      list_all P (issued_by db db'))"

definition plain :: "DB \<Rightarrow> string \<Rightarrow> bool" where
  "plain db s = (\<not> carries_hint db s)"

text \<open>Concrete inputs for the examples.\<close>

definition same_error :: converter where
  "same_error err = SqlError err"

definition witness_model :: defaultWitnessModel where
  "witness_model = \<lparr>table = ''witness''\<rparr>"

definition quiet :: env where
  "quiet = \<lparr>begin_err = None, stmt_err = (\<lambda>i. None), scan_err = (\<lambda>k. None), now = (\<lambda>i. 1000 + i)\<rparr>"

definition published :: "nat \<Rightarrow> int \<Rightarrow> BatchWitness" where
  "published i h =
     \<lparr>ID = i, CreatedAt = 0, UpdatedAt = 0, DeletedAt = None, Height = h,
      WitnessData = ''w'', Status = 0\<rparr>"

definition three_published :: DB where
  "three_published =
     \<lparr>rows = [published 1 5, published 2 3, published 3 7], auto_increment = 4,
      maxExecutionTime = 10000000000000, issued = []\<rparr>"

definition second_update_fails :: env where
  "second_update_fails = quiet\<lparr>stmt_err := (\<lambda>i. if i = 2 then Some (ErrDriver 0) else None)\<rparr>"

definition select_times_out :: env where
  "select_times_out = quiet\<lparr>stmt_err := (\<lambda>i. if i = 0 then Some (MySQLError 3024) else None)\<rparr>"

definition begin_fails :: env where
  "begin_fails = quiet\<lparr>begin_err := Some (ErrDriver 0)\<rparr>"


text \<open>An error that is a value of \<^verbatim>\<open>database/sql\<close> or the driver, returned as it came.\<close>

definition raw_store_error :: "error \<Rightarrow> bool" where
  "raw_store_error err = (case err of SqlError x \<Rightarrow> True | _ \<Rightarrow> False)"

definition one_deleted :: DB where
  "one_deleted =
     \<lparr>rows = [(published 1 5)\<lparr>DeletedAt := Some 7\<rparr>], auto_increment = 2,
      maxExecutionTime = 10000000000000, issued = []\<rparr>"

definition proof_model :: defaultProofModel where
  "proof_model = \<lparr>table = ''proof''\<rparr>"

definition first_proof :: Proof where
  "first_proof =
     \<lparr>ProofInfo = ''p'', CexAssetListCommitments = ''c'', AccountTreeRoots = ''r'',
      BatchCommitment = ''b'', AssetsCount = 2, BatchNumber = 0\<rparr>"

section \<open>Loops and the gateway\<close>

lemmas model_defs =
  GetAndUpdateBatchesWitnessByStatus_def GetAndUpdateBatchesWitnessByHeight_def
  BeginTransaction_def deferred_def Rollback_def Commit_def claim_rows_def
  tx_Query_def tx_Exec_def Query_def Exec_def QueryWithTimeout_def QueryRowWithTimeout_def
  Row_Scan_def timeoutQuery_def
  sql_select_by_status_def sql_select_by_height_status_def sql_update_status_def sql_insert_def
  sql_select_heights_def
  CreateBatchWitness_def UpdateBatchWitnessStatus_def GetAllBatchHeightsByStatus_def

lemmas sample_defs =
  same_error_def witness_model_def quiet_def published_def three_published_def

lemma scan_rows_Inr: "scan_rows e k acc rs = Inr ws \<Longrightarrow> ws = acc @ rs"
proof (induction rs arbitrary: k acc)
  case Nil
  then show ?case by simp
next
  case (Cons r rs)
  from Cons.prems have "scan_rows e (Suc k) (acc @ [r]) rs = Inr ws"
    by (simp split: option.splits)
  from Cons.IH[OF this] show ?case by simp
qed

lemma tx_Exec_update_rows:
  "tx_Exec e i db q (sql_update_status a h) = (Inr n, db1) \<Longrightarrow>
     rows db1 = map (\<lambda>w. if Height w = h then w\<lparr>UpdatedAt := now e i, Status := a\<rparr> else w) (rows db)"
  by (auto simp: tx_Exec_def Exec_def sql_update_status_def Let_def split: option.splits)

lemma tx_Query_Inr:
  "tx_Query e i db q stmt = (Inr rs, db1) \<Longrightarrow>
     stmt_err e i = None \<and> stmt (rows db) = Inr rs \<and> rows db1 = rows db"
  by (auto simp: tx_Query_def Query_def Let_def split: option.splits)

lemma deferred_Inr: "deferred tx r = (Inr v, db') \<Longrightarrow> r = (Inr v, db')"
  by (auto simp: deferred_def Commit_def split: prod.splits sum.splits)

lemma deferred_Inl: "deferred tx r = (Inl err, db') \<Longrightarrow> rows db' = saved tx"
  by (auto simp: deferred_def Rollback_def split: prod.splits sum.splits)

lemma update_each_rows:
  "update_each e i q a ws db = (None, db') \<Longrightarrow>
     list_all2 (\<lambda>r r'. if Height r \<in> set (map Height ws) then advanced (now e) i (length ws) a r r' else r' = r)
       (rows db) (rows db')"
proof (induction ws arbitrary: i db)
  case Nil
  then show ?case by (simp add: list_all2_same)
next
  case (Cons w ws)
  from Cons.prems obtain n db1 where
    ex: "tx_Exec e i db q (sql_update_status a (Height w)) = (Inr n, db1)"
    and rest: "update_each e (Suc i) q a ws db1 = (None, db')"
    by (auto split: prod.splits sum.splits)
  note r1 = tx_Exec_update_rows[OF ex]
  note ih = Cons.IH[OF rest]
  have len1: "length (rows db1) = length (rows db)" using r1 by simp
  have len: "length (rows db') = length (rows db)"
    using list_all2_lengthD[OF ih] len1 by simp
  show ?case
    unfolding list_all2_conv_all_nth
  proof (intro conjI allI impI)
    show "length (rows db) = length (rows db')" using len by simp
  next
    fix j assume j: "j < length (rows db)"
    let ?r = "rows db ! j" and ?r1 = "rows db1 ! j" and ?r' = "rows db' ! j"
    have r1j: "?r1 = (if Height ?r = Height w then ?r\<lparr>UpdatedAt := now e i, Status := a\<rparr> else ?r)"
      using r1 j by simp
    have h1: "Height ?r1 = Height ?r" using r1j by simp
    have ihj: "if Height ?r1 \<in> set (map Height ws)
               then advanced (now e) (Suc i) (length ws) a ?r1 ?r' else ?r' = ?r1"
      using list_all2_nthD[OF ih, of j] j len1 by simp
    have sub: "set (map (now e) [Suc i..<Suc i + length ws]) \<subseteq> set (map (now e) [i..<i + length (w # ws)])"
      by auto
    have here: "now e i \<in> set (map (now e) [i..<i + length (w # ws)])"
      by (auto intro!: image_eqI[where x = i])
    show "if Height ?r \<in> set (map Height (w # ws))
          then advanced (now e) i (length (w # ws)) a ?r ?r' else ?r' = ?r"
    proof (cases "Height ?r = Height w")
      case True
      then have r1eq: "?r1 = ?r\<lparr>UpdatedAt := now e i, Status := a\<rparr>" using r1j by simp
      show ?thesis
      proof (cases "Height ?r \<in> set (map Height ws)")
        case in_ws: True
        with ihj h1 have adv: "advanced (now e) (Suc i) (length ws) a ?r1 ?r'" by simp
        then have "?r' = ?r1\<lparr>UpdatedAt := UpdatedAt ?r', Status := a\<rparr>"
          and t: "UpdatedAt ?r' \<in> set (map (now e) [Suc i..<Suc i + length ws])"
          by (simp_all add: advanced_def)
        then have "?r' = ?r\<lparr>UpdatedAt := UpdatedAt ?r', Status := a\<rparr>"
          using r1eq by simp
        with t sub True show ?thesis unfolding advanced_def by auto
      next
        case False
        with ihj h1 have "?r' = ?r1" by simp
        with r1eq here True show ?thesis unfolding advanced_def by auto
      qed
    next
      case False
      then have "?r1 = ?r" using r1j by simp
      with ihj False sub show ?thesis unfolding advanced_def by auto
    qed
  qed
qed

lemma claim_rows_Inr:
  assumes "claim_rows conv m e a r = (Inr ws, db2)"
  shows "\<exists>db1. r = (Inr ws, db1) \<and> ws \<noteq> [] \<and>
           update_each e 1 (''UPDATE '' @ table m @ '' SET status = ?, updated_at = NOW() WHERE height = ?'')
             a ws db1 = (None, db2)"
proof -
  obtain x db1 where r: "r = (x, db1)" by (cases r)
  from assms r obtain rs where x: "x = Inr rs"
    by (cases x) (auto simp: claim_rows_def)
  from assms r x obtain witnesses where sc: "scan_rows e 0 [] rs = Inr witnesses"
    by (cases "scan_rows e 0 [] rs") (auto simp: claim_rows_def)
  from scan_rows_Inr[OF sc] have w: "witnesses = rs" by simp
  from assms r x sc w show ?thesis
    by (auto simp: claim_rows_def split: if_splits prod.splits option.splits)
qed

lemma claim_rows_selected:
  assumes "BeginTransaction e db = Inr tx"
    and "deferred tx (claim_rows conv m e a (tx_Query e 0 db q stmt)) = (Inr ws, db')"
  shows "stmt (rows db) = Inr ws \<and> ws \<noteq> [] \<and>
         list_all2 (\<lambda>r r'. if Height r \<in> set (map Height ws)
                            then advanced (now e) 1 (length ws) a r r' else r' = r)
           (rows db) (rows db')"
proof -
  from claim_rows_Inr[OF deferred_Inr[OF assms(2)]] obtain db1 where
    q: "tx_Query e 0 db q stmt = (Inr ws, db1)" and ne: "ws \<noteq> []"
    and up: "update_each e 1 (''UPDATE '' @ table m @ '' SET status = ?, updated_at = NOW() WHERE height = ?'') a ws db1 = (None, db')"
    by blast
  from tx_Query_Inr[OF q] have sel: "stmt (rows db) = Inr ws"
    and r1: "rows db1 = rows db" by simp_all
  from update_each_rows[OF up] r1 sel ne show ?thesis by simp
qed

lemma by_status_success:
  assumes "GetAndUpdateBatchesWitnessByStatus conv m e db b a count = (Inr ws, db')"
  shows "0 \<le> count \<and> ws \<noteq> [] \<and>
         ws = take (nat count) (sort_key Height (filter (\<lambda>w. Status w = b \<and> DeletedAt w = None) (rows db))) \<and>
         list_all2 (\<lambda>r r'. if Height r \<in> set (map Height ws)
                            then advanced (now e) 1 (length ws) a r r' else r' = r)
           (rows db) (rows db')"
proof -
  from assms obtain tx where tx: "BeginTransaction e db = Inr tx"
    by (cases "BeginTransaction e db") (auto simp: GetAndUpdateBatchesWitnessByStatus_def)
  from assms tx have "deferred tx (claim_rows conv m e a (tx_Query e 0 db
        (''SELECT id, created_at, updated_at, deleted_at, height, witness_data, status FROM ''
           @ table m @
         '' WHERE status = ? AND deleted_at IS NULL ORDER BY height ASC LIMIT ? FOR UPDATE'')
        (sql_select_by_status b count))) = (Inr ws, db')"
    by (simp add: GetAndUpdateBatchesWitnessByStatus_def)
  note s = claim_rows_selected[OF tx this]
  from s have sel: "sql_select_by_status b count (rows db) = Inr ws" by blast
  from s have ne: "ws \<noteq> []" by blast
  from s have l: "list_all2 (\<lambda>r r'. if Height r \<in> set (map Height ws)
                            then advanced (now e) 1 (length ws) a r r' else r' = r)
           (rows db) (rows db')"
    by blast
  from sel have c: "0 \<le> count"
    and ws: "ws = take (nat count) (sort_key Height (filter (\<lambda>w. Status w = b \<and> DeletedAt w = None) (rows db)))"
    by (auto simp: sql_select_by_status_def split: if_splits)
  from c ne ws l show ?thesis by blast
qed


section \<open>Claim transactions\<close>



text \<open>
  C2.  When a claim by status or by height fails, whatever the failure (\<^verbatim>\<open>Begin\<close>, the
  select, a scan, no matching row, an update after others went through), the rows of the
  table are those from before the call.
\<close>

theorem failed_claim_leaves_rows:
  "(\<forall>err db'. GetAndUpdateBatchesWitnessByStatus conv m e db beforeStatus afterStatus count = (Inl err, db')
       \<longrightarrow> rows db' = rows db) \<and>
   (\<forall>err db'. GetAndUpdateBatchesWitnessByHeight conv m e db height beforeStatus afterStatus = (Inl err, db')
       \<longrightarrow> rows db' = rows db)"
proof (intro conjI allI impI)
  fix err db'
  assume a: "GetAndUpdateBatchesWitnessByStatus conv m e db beforeStatus afterStatus count = (Inl err, db')"
  show "rows db' = rows db"
  proof (cases "BeginTransaction e db")
    case (Inl x)
    with a show ?thesis by (simp add: GetAndUpdateBatchesWitnessByStatus_def)
  next
    case (Inr tx)
    then have s: "saved tx = rows db" by (auto simp: BeginTransaction_def split: option.splits)
    from a Inr show ?thesis
      by (auto simp: GetAndUpdateBatchesWitnessByStatus_def s dest: deferred_Inl)
  qed
next
  fix err db'
  assume a: "GetAndUpdateBatchesWitnessByHeight conv m e db height beforeStatus afterStatus = (Inl err, db')"
  show "rows db' = rows db"
  proof (cases "BeginTransaction e db")
    case (Inl x)
    with a show ?thesis by (simp add: GetAndUpdateBatchesWitnessByHeight_def)
  next
    case (Inr tx)
    then have s: "saved tx = rows db" by (auto simp: BeginTransaction_def split: option.splits)
    from a Inr show ?thesis
      by (auto simp: GetAndUpdateBatchesWitnessByHeight_def s dest: deferred_Inl)
  qed
qed

theorem failed_claim_leaves_rows_witness:
  "fst (GetAndUpdateBatchesWitnessByStatus same_error witness_model second_update_fails three_published
          StatusPublished StatusReceived 2) = Inl (SqlError (ErrDriver 0))
   \<and> rows (snd (GetAndUpdateBatchesWitnessByStatus same_error witness_model second_update_fails
          three_published StatusPublished StatusReceived 2)) = rows three_published
   \<and> length (issued_by three_published
          (snd (GetAndUpdateBatchesWitnessByStatus same_error witness_model second_update_fails
             three_published StatusPublished StatusReceived 2))) = 3
   \<and> fst (GetAndUpdateBatchesWitnessByStatus same_error witness_model select_times_out three_published
          StatusPublished StatusReceived 2) = Inl (SqlError (MySQLError 3024))
   \<and> rows (snd (GetAndUpdateBatchesWitnessByStatus same_error witness_model select_times_out
          three_published StatusPublished StatusReceived 2)) = rows three_published
   \<and> fst (GetAndUpdateBatchesWitnessByHeight same_error witness_model quiet three_published
          5 StatusReceived StatusFinished) = Inl DbErrNotFound
   \<and> rows (snd (GetAndUpdateBatchesWitnessByHeight same_error witness_model quiet three_published
          5 StatusReceived StatusFinished)) = rows three_published
   \<and> fst (GetAndUpdateBatchesWitnessByHeight same_error witness_model begin_fails three_published
          5 StatusPublished StatusReceived) = Inl (SqlError (ErrDriver 0))
   \<and> rows (snd (GetAndUpdateBatchesWitnessByHeight same_error witness_model begin_fails three_published
          5 StatusPublished StatusReceived)) = rows three_published"
proof -
  let ?d = "GetAndUpdateBatchesWitnessByHeight same_error witness_model begin_fails three_published
          5 StatusPublished StatusReceived"
  have d: "fst ?d = Inl (SqlError (ErrDriver 0))"
    by (simp add: model_defs sample_defs begin_fails_def StatusPublished_def StatusReceived_def)
  have d': "?d = (Inl (SqlError (ErrDriver 0)), snd ?d)" using d by (simp add: prod_eq_iff)
  have rd: "rows (snd ?d) = rows three_published"
    using failed_claim_leaves_rows[of same_error witness_model begin_fails three_published
        StatusPublished StatusReceived _ 5] d' by blast
  let ?a = "GetAndUpdateBatchesWitnessByStatus same_error witness_model second_update_fails three_published
          StatusPublished StatusReceived 2"
  let ?b = "GetAndUpdateBatchesWitnessByStatus same_error witness_model select_times_out three_published
          StatusPublished StatusReceived 2"
  let ?c = "GetAndUpdateBatchesWitnessByHeight same_error witness_model quiet three_published
          5 StatusReceived StatusFinished"
  have a: "fst ?a = Inl (SqlError (ErrDriver 0))"
    by (simp add: model_defs sample_defs second_update_fails_def StatusPublished_def StatusReceived_def)
  have n: "length (issued_by three_published (snd ?a)) = 3"
    by (simp add: model_defs sample_defs second_update_fails_def issued_by_def
        StatusPublished_def StatusReceived_def)
  have b: "fst ?b = Inl (SqlError (MySQLError 3024))"
    by (simp add: model_defs sample_defs select_times_out_def StatusPublished_def StatusReceived_def)
  have c: "fst ?c = Inl DbErrNotFound"
    by (simp add: model_defs sample_defs StatusReceived_def StatusFinished_def)
  have a': "?a = (Inl (SqlError (ErrDriver 0)), snd ?a)" using a by (simp add: prod_eq_iff)
  have b': "?b = (Inl (SqlError (MySQLError 3024)), snd ?b)" using b by (simp add: prod_eq_iff)
  have c': "?c = (Inl DbErrNotFound, snd ?c)" using c by (simp add: prod_eq_iff)
  have "rows (snd ?a) = rows three_published"
    using failed_claim_leaves_rows[of same_error witness_model second_update_fails three_published
        StatusPublished StatusReceived 2] a' by blast
  moreover have "rows (snd ?b) = rows three_published"
    using failed_claim_leaves_rows[of same_error witness_model select_times_out three_published
        StatusPublished StatusReceived 2] b' by blast
  moreover have "rows (snd ?c) = rows three_published"
    using failed_claim_leaves_rows[of same_error witness_model quiet three_published
        StatusReceived StatusFinished _ 5] c' by blast
  ultimately show ?thesis using a b c n d rd by simp
qed













lemma advanced_fields:
  assumes "advanced clock i n a r r'"
  shows "Status r' = a \<and> Height r' = Height r \<and> DeletedAt r' = DeletedAt r"
proof -
  from assms have eq: "r' = r\<lparr>UpdatedAt := UpdatedAt r', Status := a\<rparr>"
    by (simp add: advanced_def)
  have "Status r' = a" using arg_cong[OF eq, of Status] by simp
  moreover have "Height r' = Height r" using arg_cong[OF eq, of Height] by simp
  moreover have "DeletedAt r' = DeletedAt r" using arg_cong[OF eq, of DeletedAt] by simp
  ultimately show ?thesis by simp
qed

lemma claimed_heights_left_status:
  assumes "list_all2 (\<lambda>r r'. if Height r \<in> set (map Height ws)
                              then advanced clock i n a r r' else r' = r) old new"
    and "r' \<in> set new" and "Height r' \<in> set (map Height ws)"
  shows "Status r' = a"
proof -
  from assms(2) obtain j where j: "j < length new" and r': "new ! j = r'"
    by (auto simp: in_set_conv_nth)
  from list_all2_nthD2[OF assms(1) j] r'
  have rel: "if Height (old ! j) \<in> set (map Height ws)
             then advanced clock i n a (old ! j) r' else r' = old ! j"
    by (auto split: if_splits)
  show ?thesis
  proof (cases "Height (old ! j) \<in> set (map Height ws)")
    case True
    with rel show ?thesis by (simp add: advanced_fields)
  next
    case False
    with rel assms(3) show ?thesis by simp
  qed
qed



section \<open>Listing heights\<close>









section \<open>Inserts\<close>

lemma Exec_insert_cases:
  "Exec e i db q (sql_insert h d s) =
     (case stmt_err e i of
        Some err \<Rightarrow> (Inl err, db\<lparr>issued := issued db @ [q]\<rparr>)
      | None \<Rightarrow>
          if h \<in> set (map Height (rows db))
          then (Inl (MySQLError 1062), db\<lparr>issued := issued db @ [q]\<rparr>)
          else (Inr \<lparr>RowsAffected = Inr 1\<rparr>,
                db\<lparr>issued := issued db @ [q],
                   rows := rows db @
                     [\<lparr>ID = auto_increment db, CreatedAt = now e i, UpdatedAt = now e i,
                       DeletedAt = None, Height = h, WitnessData = d, Status = s\<rparr>],
                   auto_increment := Suc (auto_increment db)\<rparr>))"
  by (simp add: Exec_def sql_insert_def split: option.splits)

lemma insert_each_rows_prefix:
  "prefix (rows db) (rows (snd (insert_each e i q ws db)))"
proof (induction ws arbitrary: i db)
  case Nil
  then show ?case by simp
next
  case (Cons w ws)
  show ?case
  proof (cases "stmt_err e i")
    case (Some err)
    then show ?thesis by (simp add: Exec_insert_cases)
  next
    case None
    show ?thesis
    proof (cases "Height w \<in> set (map Height (rows db))")
      case True
      with None show ?thesis by (simp add: Exec_insert_cases)
    next
      case False
      let ?db1 = "db\<lparr>issued := issued db @ [q],
                   rows := rows db @
                     [\<lparr>ID = auto_increment db, CreatedAt = now e i, UpdatedAt = now e i,
                       DeletedAt = None, Height = Height w, WitnessData = WitnessData w,
                       Status = Status w\<rparr>],
                   auto_increment := Suc (auto_increment db)\<rparr>"
      have "prefix (rows db) (rows ?db1)" by simp
      also have "prefix (rows ?db1) (rows (snd (insert_each e (Suc i) q ws ?db1)))"
        by (rule Cons.IH)
      finally show ?thesis using None False by (simp add: Exec_insert_cases)
    qed
  qed
qed

lemma insert_each_error_raw:
  "fst (insert_each e i q ws db) = Some err \<Longrightarrow> raw_store_error err"
proof (induction ws arbitrary: i db)
  case Nil
  then show ?case by simp
next
  case (Cons w ws)
  then show ?case
    by (cases "Exec e i db q (sql_insert (Height w) (WitnessData w) (Status w))")
       (auto simp: raw_store_error_def split: sum.splits)
qed

lemma insert_each_duplicate:
  assumes "w \<in> set ws" and "Height w \<in> set (map Height (rows db))"
  shows "fst (insert_each e i q ws db) \<noteq> None \<and>
         ((\<forall>j. stmt_err e j = None) \<longrightarrow>
            fst (insert_each e i q ws db) = Some (SqlError (MySQLError 1062)))"
  using assms
proof (induction ws arbitrary: i db)
  case Nil
  then show ?case by simp
next
  case (Cons v ws)
  show ?case
  proof (cases "stmt_err e i")
    case (Some err)
    then show ?thesis by (auto simp: Exec_insert_cases)
  next
    case None
    show ?thesis
    proof (cases "Height v \<in> set (map Height (rows db))")
      case True
      with None show ?thesis by (simp add: Exec_insert_cases)
    next
      case False
      let ?db1 = "db\<lparr>issued := issued db @ [q],
                   rows := rows db @
                     [\<lparr>ID = auto_increment db, CreatedAt = now e i, UpdatedAt = now e i,
                       DeletedAt = None, Height = Height v, WitnessData = WitnessData v,
                       Status = Status v\<rparr>],
                   auto_increment := Suc (auto_increment db)\<rparr>"
      from False Cons.prems have w: "w \<in> set ws" by auto
      from Cons.prems(2) have h: "Height w \<in> set (map Height (rows ?db1))" by simp
      from Cons.IH[OF w h, of "Suc i"] None False show ?thesis
        by (simp add: Exec_insert_cases)
    qed
  qed
qed

text \<open>
  C10.  The height is unique over all rows of the table, deleted or not: when a record
  to enqueue has the height of any existing row, \<^verbatim>\<open>CreateBatchWitness\<close> fails; when no
  statement fails for another reason, the error is the store's duplicate-entry error
  (MySQL 1062).  The rows that existed stay as they are, in place, and when the record is
  enqueued alone no row is added.
\<close>

theorem height_unique_over_all_rows:
  assumes "r \<in> set (rows db)" and "w \<in> set witness" and "Height w = Height r"
  shows "fst (CreateBatchWitness m e db witness) \<noteq> None \<and>
         ((\<forall>j. stmt_err e j = None) \<longrightarrow>
            fst (CreateBatchWitness m e db witness) = Some (SqlError (MySQLError 1062))) \<and>
         prefix (rows db) (rows (snd (CreateBatchWitness m e db witness))) \<and>
         (witness = [w] \<longrightarrow> rows (snd (CreateBatchWitness m e db witness)) = rows db)"
proof -
  from assms(1,3) have h: "Height w \<in> set (map Height (rows db))" by auto
  from assms(2) have ne: "length witness \<noteq> 0" by auto
  have one: "witness = [w] \<longrightarrow> rows (snd (CreateBatchWitness m e db witness)) = rows db"
    using h by (cases "stmt_err e 0") (simp_all add: CreateBatchWitness_def Exec_insert_cases)
  from insert_each_duplicate[OF assms(2) h] insert_each_rows_prefix ne one
  show ?thesis by (simp add: CreateBatchWitness_def)
qed

theorem height_unique_over_all_rows_witness:
  "(published 1 5)\<lparr>DeletedAt := Some 7\<rparr> \<in> set (rows one_deleted) \<and>
   published 0 5 \<in> set [published 0 5] \<and>
   Height (published 0 5) = Height ((published 1 5)\<lparr>DeletedAt := Some 7\<rparr>) \<and>
   fst (CreateBatchWitness witness_model quiet one_deleted [published 0 5])
     = Some (SqlError (MySQLError 1062)) \<and>
   rows (snd (CreateBatchWitness witness_model quiet one_deleted [published 0 5])) = rows one_deleted"
proof -
  have a: "(published 1 5)\<lparr>DeletedAt := Some 7\<rparr> \<in> set (rows one_deleted)"
    by (simp add: one_deleted_def)
  have b: "published 0 5 \<in> set [published 0 5]" by simp
  have c: "Height (published 0 5) = Height ((published 1 5)\<lparr>DeletedAt := Some 7\<rparr>)"
    by (simp add: published_def)
  have q: "\<forall>j. stmt_err quiet j = None" by (simp add: quiet_def)
  from height_unique_over_all_rows[OF a b c, of witness_model quiet] q a b c
  show ?thesis by simp
qed

text \<open>
  C5, as amended.  \<^verbatim>\<open>CreateBatchWitness\<close> translates no error: every error it returns is
  the value the store gave for the failing insert.  When a record has the height of an
  existing active row and no statement fails for another reason, that value is the
  store's duplicate-entry error (MySQL 1062).  The rows that existed stay as they are.
\<close>

theorem enqueue_returns_store_error:
  "(\<forall>err. fst (CreateBatchWitness m e db witness) = Some err \<longrightarrow> raw_store_error err) \<and>
   ((\<exists>w\<in>set witness. \<exists>r\<in>set (rows db). DeletedAt r = None \<and> Height w = Height r) \<and>
    (\<forall>j. stmt_err e j = None)
      \<longrightarrow> fst (CreateBatchWitness m e db witness) = Some (SqlError (MySQLError 1062))) \<and>
   prefix (rows db) (rows (snd (CreateBatchWitness m e db witness)))"
proof (intro conjI allI impI)
  fix err assume "fst (CreateBatchWitness m e db witness) = Some err"
  then show "raw_store_error err"
    by (auto simp: CreateBatchWitness_def split: if_splits dest: insert_each_error_raw)
next
  assume a: "(\<exists>w\<in>set witness. \<exists>r\<in>set (rows db). DeletedAt r = None \<and> Height w = Height r) \<and>
    (\<forall>j. stmt_err e j = None)"
  then obtain w r where w: "w \<in> set witness" and r: "r \<in> set (rows db)" and h: "Height w = Height r"
    by blast
  from r h have hh: "Height w \<in> set (map Height (rows db))" by auto
  from w have ne: "length witness \<noteq> 0" by auto
  from insert_each_duplicate[OF w hh] a ne
  show "fst (CreateBatchWitness m e db witness) = Some (SqlError (MySQLError 1062))"
    by (simp add: CreateBatchWitness_def)
next
  show "prefix (rows db) (rows (snd (CreateBatchWitness m e db witness)))"
    by (simp add: CreateBatchWitness_def insert_each_rows_prefix)
qed

theorem enqueue_returns_store_error_witness:
  "fst (CreateBatchWitness witness_model quiet three_published [published 0 9, published 0 5, published 0 11])
     = Some (SqlError (MySQLError 1062)) \<and>
   raw_store_error (SqlError (MySQLError 1062)) \<and>
   map Height (rows (snd (CreateBatchWitness witness_model quiet three_published
                            [published 0 9, published 0 5, published 0 11]))) = [5, 3, 7, 9]"
proof -
  let ?ws = "[published 0 9, published 0 5, published 0 11]"
  have dup: "(\<exists>w\<in>set ?ws. \<exists>r\<in>set (rows three_published). DeletedAt r = None \<and> Height w = Height r) \<and>
             (\<forall>j. stmt_err quiet j = None)"
    by (simp add: sample_defs)
  have "(\<exists>w\<in>set ?ws. \<exists>r\<in>set (rows three_published). DeletedAt r = None \<and> Height w = Height r) \<and>
        (\<forall>j. stmt_err quiet j = None)
        \<longrightarrow> fst (CreateBatchWitness witness_model quiet three_published ?ws)
              = Some (SqlError (MySQLError 1062))"
    using enqueue_returns_store_error[of witness_model quiet three_published ?ws]
    by - (elim conjE, assumption)
  with dup have a: "fst (CreateBatchWitness witness_model quiet three_published ?ws)
              = Some (SqlError (MySQLError 1062))"
    by (rule rev_mp)
  have b: "raw_store_error (SqlError (MySQLError 1062))" by (simp add: raw_store_error_def)
  have c: "map Height (rows (snd (CreateBatchWitness witness_model quiet three_published ?ws))) = [5, 3, 7, 9]"
    by (simp add: CreateBatchWitness_def Exec_insert_cases sample_defs)
  from a b c show ?thesis by simp
qed

theorem enqueue_conflict_counterexample:
  "fst (CreateBatchWitness witness_model quiet three_published [published 0 5])
     = Some (SqlError (MySQLError 1062)) \<and>
   raw_store_error (SqlError (MySQLError 1062)) \<and>
   published 1 5 \<in> set (rows three_published) \<and> DeletedAt (published 1 5) = None \<and>
   Height (published 0 5) = Height (published 1 5)"
  by (simp add: CreateBatchWitness_def Exec_insert_cases sample_defs raw_store_error_def)

section \<open>Affected rows\<close>

lemma sql_update_status_no_match:
  assumes "\<forall>r\<in>set (rows db). Height r \<noteq> h"
  shows "sql_update_status status h t db = Inr (0, db)"
proof -
  from assms have "filter (\<lambda>w. Height w = h \<and> (Status w \<noteq> status \<or> UpdatedAt w \<noteq> t)) (rows db) = []"
    by (auto simp: filter_empty_conv)
  moreover from assms have "map (\<lambda>w. if Height w = h then w\<lparr>UpdatedAt := t, Status := status\<rparr> else w) (rows db) = rows db"
    by (induction "rows db") (auto simp: map_idI)
  ultimately show ?thesis by (simp add: sql_update_status_def)
qed

text \<open>
  C7, as amended.  \<^verbatim>\<open>CreateProof\<close> fails with \<^verbatim>\<open>DbErrSqlOperation\<close> exactly when the store
  answers its insert with an affected-row count of zero, and hands on an error of
  \<^verbatim>\<open>Exec\<close> or of \<^verbatim>\<open>RowsAffected\<close> as it is.  \<^verbatim>\<open>UpdateBatchWitnessStatus\<close> does not read the
  count: it succeeds whenever the update statement runs, also when no row carries the
  height, in which case the store reports zero affected rows and the rows are unchanged.
\<close>

theorem zero_rows_affected:
  "CreateProof (\<lambda>query args. Inr \<lparr>RowsAffected = Inr n\<rparr>) pm row
     = (if n = 0 then Some DbErrSqlOperation else None) \<and>
   CreateProof (\<lambda>query args. Inr \<lparr>RowsAffected = Inl err\<rparr>) pm row = Some (SqlError err) \<and>
   CreateProof (\<lambda>query args. Inl err) pm row = Some (SqlError err) \<and>
   (stmt_err e 0 = None \<longrightarrow> fst (UpdateBatchWitnessStatus m e db witness status) = None) \<and>
   ((\<forall>r\<in>set (rows db). Height r \<noteq> Height witness) \<longrightarrow>
      sql_update_status status (Height witness) t db = Inr (0, db) \<and>
      rows (snd (UpdateBatchWitnessStatus m e db witness status)) = rows db)"
proof (intro conjI impI)
  show "CreateProof (\<lambda>query args. Inr \<lparr>RowsAffected = Inr n\<rparr>) pm row
     = (if n = 0 then Some DbErrSqlOperation else None)"
    by (simp add: CreateProof_def)
  show "CreateProof (\<lambda>query args. Inr \<lparr>RowsAffected = Inl err\<rparr>) pm row = Some (SqlError err)"
    by (simp add: CreateProof_def)
  show "CreateProof (\<lambda>query args. Inl err) pm row = Some (SqlError err)"
    by (simp add: CreateProof_def)
next
  assume "stmt_err e 0 = None"
  then show "fst (UpdateBatchWitnessStatus m e db witness status) = None"
    by (simp add: UpdateBatchWitnessStatus_def Exec_def sql_update_status_def)
next
  assume a: "\<forall>r\<in>set (rows db). Height r \<noteq> Height witness"
  then show "sql_update_status status (Height witness) t db = Inr (0, db)"
    by (rule sql_update_status_no_match)
next
  assume a: "\<forall>r\<in>set (rows db). Height r \<noteq> Height witness"
  then have "\<forall>r\<in>set (rows (db\<lparr>issued := issued db @ [q]\<rparr>)). Height r \<noteq> Height witness" for q
    by simp
  from sql_update_status_no_match[OF this]
  show "rows (snd (UpdateBatchWitnessStatus m e db witness status)) = rows db"
    by (simp add: UpdateBatchWitnessStatus_def Exec_def Let_def split: option.splits)
qed

theorem zero_rows_affected_witness:
  "CreateProof (\<lambda>query args. Inr \<lparr>RowsAffected = Inr 0\<rparr>) proof_model first_proof = Some DbErrSqlOperation \<and>
   CreateProof (\<lambda>query args. Inr \<lparr>RowsAffected = Inr 1\<rparr>) proof_model first_proof = None \<and>
   stmt_err quiet 0 = None \<and>
   fst (UpdateBatchWitnessStatus witness_model quiet three_published (published 0 99) StatusFinished) = None \<and>
   rows (snd (UpdateBatchWitnessStatus witness_model quiet three_published (published 0 99) StatusFinished))
     = rows three_published"
proof -
  have q: "stmt_err quiet 0 = None" by (simp add: quiet_def)
  have no: "\<forall>r\<in>set (rows three_published). Height r \<noteq> Height (published 0 99)"
    by (simp add: sample_defs)
  note t0 = zero_rows_affected[of 0 proof_model first_proof _ quiet witness_model three_published
      "published 0 99" StatusFinished]
  note t1 = zero_rows_affected[of 1 proof_model first_proof]
  have a: "CreateProof (\<lambda>query args. Inr \<lparr>RowsAffected = Inr 0\<rparr>) proof_model first_proof
             = Some DbErrSqlOperation"
    using t0 by simp
  have b: "CreateProof (\<lambda>query args. Inr \<lparr>RowsAffected = Inr 1\<rparr>) proof_model first_proof = None"
    using t1 by simp
  have c: "fst (UpdateBatchWitnessStatus witness_model quiet three_published (published 0 99) StatusFinished) = None"
    using t0 q by blast
  have d: "rows (snd (UpdateBatchWitnessStatus witness_model quiet three_published (published 0 99) StatusFinished))
     = rows three_published"
    using t0 no by blast
  from a b q c d show ?thesis by simp
qed

theorem zero_rows_affected_counterexample:
  "fst (Exec quiet 0 three_published
          (''UPDATE '' @ table witness_model @ '' SET status = ?, updated_at = NOW() WHERE height = ?'')
          (sql_update_status StatusFinished (Height (published 0 99))))
     = Inr \<lparr>RowsAffected = Inr 0\<rparr> \<and>
   fst (UpdateBatchWitnessStatus witness_model quiet three_published (published 0 99) StatusFinished) = None \<and>
   map Height (rows three_published) = [5, 3, 7] \<and> Height (published 0 99) = 99"
  by (simp add: UpdateBatchWitnessStatus_def Exec_def sql_update_status_def sample_defs StatusFinished_def)

section \<open>The execution-time hint\<close>

lemma issued_only_refl: "issued_only P db db"
  by (simp add: issued_only_def issued_by_def)

lemma issued_only_trans:
  assumes "issued_only P db db1" and "issued_only P db1 db2"
  shows "issued_only P db db2"
proof -
  from assms(1) obtain xs where xs: "issued db1 = issued db @ xs" and px: "list_all P xs"
    by (auto simp: issued_only_def issued_by_def prefix_def)
  from assms(2) obtain ys where ys: "issued db2 = issued db1 @ ys" and py: "list_all P ys"
    by (auto simp: issued_only_def issued_by_def prefix_def)
  from xs ys px py assms show ?thesis
    by (simp add: issued_only_def issued_by_def)
qed

lemma issued_only_step:
  assumes "maxExecutionTime db' = maxExecutionTime db" and "issued db' = issued db @ [q]" and "P q"
  shows "issued_only P db db'"
  using assms by (simp add: issued_only_def issued_by_def)

lemma issued_only_rows:
  "issued_only P db db1 \<Longrightarrow> issued_only P db (db1\<lparr>rows := r\<rparr>)"
  by (simp add: issued_only_def issued_by_def)

lemma issued_only_time:
  "issued_only P db db1 \<Longrightarrow> maxExecutionTime db1 = maxExecutionTime db"
  by (simp add: issued_only_def)

lemma step_then:
  assumes "maxExecutionTime d1 = maxExecutionTime db" and "issued d1 = issued db @ [q]" and "P q"
    and "issued_only P d1 d2"
  shows "issued_only P db d2 \<and> issued_by db d2 \<noteq> []"
proof -
  from assms(1-3) have "issued_only P db d1" by (rule issued_only_step)
  from issued_only_trans[OF this assms(4)] have a: "issued_only P db d2" .
  from assms(4) obtain ys where "issued d2 = issued d1 @ ys"
    by (auto simp: issued_only_def prefix_def)
  with assms(2) have "issued_by db d2 \<noteq> []" by (simp add: issued_by_def)
  with a show ?thesis by simp
qed

lemma Query_step:
  "maxExecutionTime (snd (Query e i db q stmt)) = maxExecutionTime db \<and>
   issued (snd (Query e i db q stmt)) = issued db @ [q]"
  by (simp add: Query_def Let_def split: option.splits)

lemma Exec_update_step:
  "maxExecutionTime (snd (Exec e i db q (sql_update_status s h))) = maxExecutionTime db \<and>
   issued (snd (Exec e i db q (sql_update_status s h))) = issued db @ [q]"
  by (simp add: Exec_def Let_def sql_update_status_def split: option.splits)

lemma Exec_insert_step:
  "maxExecutionTime (snd (Exec e i db q (sql_insert h d s))) = maxExecutionTime db \<and>
   issued (snd (Exec e i db q (sql_insert h d s))) = issued db @ [q]"
  by (simp add: Exec_insert_cases split: option.splits)

lemma carries_hint_timeoutQuery:
  "maxExecutionTime db1 = maxExecutionTime db \<Longrightarrow> carries_hint db (timeoutQuery db1 q)"
  by (simp add: carries_hint_def timeoutQuery_def)

lemma plain_texts:
  "plain db (''INSERT INTO '' @ x)"
  "plain db (''UPDATE '' @ x)"
  "plain db (''SELECT id, created_at, updated_at, deleted_at, height, witness_data, status FROM '' @ x)"
  by (simp_all add: plain_def carries_hint_def)

lemma timeout_query_then:
  assumes "issued_only (carries_hint db) (snd (Query e i db (timeoutQuery db q) stmt)) d2"
  shows "issued_only (carries_hint db) db d2 \<and> issued_by db d2 \<noteq> []"
  using Query_step[of e i db "timeoutQuery db q" stmt] assms
  by (intro step_then[where q = "timeoutQuery db q"]) (simp_all add: carries_hint_timeoutQuery)

lemma snd_GetLatestBatchWitnessHeight:
  "snd (GetLatestBatchWitnessHeight conv m e db) =
   snd (Query e 0 db (timeoutQuery db (''SELECT height FROM '' @ table m @
              '' WHERE deleted_at IS NULL ORDER BY height DESC LIMIT 1'')) sql_select_latest_height)"
  unfolding GetLatestBatchWitnessHeight_def QueryRowWithTimeout_def
  by (simp split: prod.splits sum.splits)

lemma snd_GetBatchWitnessByHeight:
  "snd (GetBatchWitnessByHeight conv m e db height) =
   snd (Query e 0 db (timeoutQuery db
          (''SELECT id, created_at, updated_at, deleted_at, height, witness_data, status FROM ''
                @ table m @ '' WHERE height = ? AND deleted_at IS NULL LIMIT 1''))
          (sql_select_by_height height))"
  unfolding GetBatchWitnessByHeight_def QueryRowWithTimeout_def
  by (simp split: prod.splits sum.splits)

lemma snd_GetLatestBatchWitnessByStatus:
  "snd (GetLatestBatchWitnessByStatus conv m e db status) =
   snd (Query e 0 db (timeoutQuery db
          (''SELECT id, created_at, updated_at, deleted_at, height, witness_data, status FROM ''
                @ table m @ '' WHERE status = ? AND deleted_at IS NULL LIMIT 1''))
          (sql_select_first_by_status status))"
  unfolding GetLatestBatchWitnessByStatus_def QueryRowWithTimeout_def
  by (simp split: prod.splits sum.splits)

lemma snd_GetAllBatchHeightsByStatus:
  "snd (GetAllBatchHeightsByStatus conv m e db status limit offset) =
   snd (Query e 0 db (timeoutQuery db
          (''SELECT height FROM '' @ table m @
              '' WHERE status = ? AND deleted_at IS NULL ORDER BY height ASC LIMIT ? OFFSET ?''))
          (sql_select_heights status limit offset))"
  unfolding GetAllBatchHeightsByStatus_def QueryWithTimeout_def
  by (simp split: prod.splits sum.splits)

lemma snd_count_query:
  "snd (count_query conv e i db q stmt) = snd (Query e i db (timeoutQuery db q) stmt)"
  unfolding count_query_def QueryRowWithTimeout_def
  by (simp split: prod.splits sum.splits)

lemma hinted_same_time:
  "maxExecutionTime d = maxExecutionTime db \<Longrightarrow> carries_hint d = carries_hint db"
  by (simp add: carries_hint_def fun_eq_iff)

lemma single_hinted:
  "issued_only (carries_hint db) db (snd (Query e i db (timeoutQuery db q) stmt)) \<and>
   issued_by db (snd (Query e i db (timeoutQuery db q) stmt)) \<noteq> []"
  by (rule timeout_query_then) (rule issued_only_refl)

lemma GetBatchWitnessByHeight_hinted:
  "issued_only (carries_hint db) db (snd (GetBatchWitnessByHeight conv m e db height)) \<and>
   issued_by db (snd (GetBatchWitnessByHeight conv m e db height)) \<noteq> []"
  unfolding snd_GetBatchWitnessByHeight by (rule single_hinted)

lemma GetLatestBatchWitness_hinted:
  "issued_only (carries_hint db) db (snd (GetLatestBatchWitness conv m e db)) \<and>
   issued_by db (snd (GetLatestBatchWitness conv m e db)) \<noteq> []"
proof -
  let ?q = "Query e 0 db (timeoutQuery db (''SELECT height FROM '' @ table m @
              '' WHERE deleted_at IS NULL ORDER BY height DESC LIMIT 1'')) sql_select_latest_height"
  obtain row db1 where q: "?q = (row, db1)" by (cases ?q)
  from Query_step[of e 0 db _ sql_select_latest_height] q
  have t: "maxExecutionTime db1 = maxExecutionTime db" by (metis snd_conv)
  have "issued_only (carries_hint db) db1 (snd (GetLatestBatchWitness conv m e db))"
  proof (cases "Row_Scan e 0 row")
    case (Inl err)
    with q show ?thesis
      by (simp add: GetLatestBatchWitness_def QueryRowWithTimeout_def issued_only_refl)
  next
    case (Inr height)
    from GetBatchWitnessByHeight_hinted[of db1 conv m "later 1 1 e" height]
    have "issued_only (carries_hint db) db1 (snd (GetBatchWitnessByHeight conv m (later 1 1 e) db1 height))"
      by (simp add: hinted_same_time[OF t])
    with Inr q show ?thesis
      by (simp add: GetLatestBatchWitness_def QueryRowWithTimeout_def)
  qed
  with q show ?thesis
    by (intro timeout_query_then[where e = e and i = 0 and stmt = sql_select_latest_height
          and q = "''SELECT height FROM '' @ table m @
              '' WHERE deleted_at IS NULL ORDER BY height DESC LIMIT 1''"]) simp
qed

lemma count_then:
  assumes m: "maxExecutionTime db = maxExecutionTime db0"
    and k: "\<And>c d. maxExecutionTime d = maxExecutionTime db0 \<Longrightarrow>
                 issued_only (carries_hint db0) d (snd (K c d))"
  shows "issued_only (carries_hint db0) db
           (snd (case count_query conv e i db q stmt of
                   (Inl err, d) \<Rightarrow> (Inl err, d)
                 | (Inr c, d) \<Rightarrow> K c d))"
proof -
  obtain r d where c: "count_query conv e i db q stmt = (r, d)"
    by (cases "count_query conv e i db q stmt")
  then have d: "d = snd (Query e i db (timeoutQuery db q) stmt)"
    using snd_count_query[of conv e i db q stmt] by simp
  from single_hinted[of db e i q stmt] d
  have s: "issued_only (carries_hint db0) db d"
    by (simp add: hinted_same_time[OF m])
  from issued_only_time[OF s] m have t: "maxExecutionTime d = maxExecutionTime db0" by simp
  show ?thesis
  proof (cases r)
    case (Inl err)
    with c s show ?thesis by simp
  next
    case (Inr x)
    with c issued_only_trans[OF s k[OF t]] show ?thesis by simp
  qed
qed

lemma GetRowCounts_hinted:
  "issued_only (carries_hint db) db (snd (GetRowCounts conv m e db)) \<and>
   issued_by db (snd (GetRowCounts conv m e db)) \<noteq> []"
proof -
  let ?q0 = "''SELECT COUNT(*) FROM '' @ table m @ '' WHERE deleted_at IS NULL''"
  obtain r d1 where c: "count_query conv e 0 db ?q0 sql_count_all = (r, d1)"
    by (cases "count_query conv e 0 db ?q0 sql_count_all")
  then have d1: "d1 = snd (Query e 0 db (timeoutQuery db ?q0) sql_count_all)"
    using snd_count_query[of conv e 0 db ?q0 sql_count_all] by simp
  from Query_step[of e 0 db "timeoutQuery db ?q0" sql_count_all] d1
  have t: "maxExecutionTime d1 = maxExecutionTime db" by simp
  have "issued_only (carries_hint db) d1 (snd (GetRowCounts conv m e db))"
  proof (cases r)
    case (Inl err)
    with c show ?thesis by (simp add: GetRowCounts_def issued_only_refl)
  next
    case (Inr count)
    have "issued_only (carries_hint db) d1
       (snd (case count_query conv e 1 d1
             (''SELECT COUNT(*) FROM '' @ table m @ '' WHERE status = ? AND deleted_at IS NULL'')
             (sql_count_by_status StatusPublished) of
        (Inl err, db2) \<Rightarrow> (Inl err, db2)
      | (Inr publishedCount, db2) \<Rightarrow>
     (case count_query conv e 2 db2
             (''SELECT COUNT(*) FROM '' @ table m @ '' WHERE status = ? AND deleted_at IS NULL'')
             (sql_count_by_status StatusReceived) of
        (Inl err, db3) \<Rightarrow> (Inl err, db3)
      | (Inr pendingCount, db3) \<Rightarrow>
     (case count_query conv e 3 db3
             (''SELECT COUNT(*) FROM '' @ table m @ '' WHERE status = ? AND deleted_at IS NULL'')
             (sql_count_by_status StatusFinished) of
        (Inl err, db4) \<Rightarrow> (Inl err, db4)
      | (Inr finishedCount, db4) \<Rightarrow>
          (Inr [count, publishedCount, pendingCount, finishedCount], db4)))))"
      by (intro count_then t) (simp_all add: issued_only_refl)
    with Inr c show ?thesis by (simp add: GetRowCounts_def)
  qed
  with d1 show ?thesis
    by (intro timeout_query_then[where e = e and i = 0 and stmt = sql_count_all and q = ?q0]) simp
qed

lemma insert_each_plain:
  assumes "P q"
  shows "issued_only P db (snd (insert_each e i q ws db)) \<and>
         (ws \<noteq> [] \<longrightarrow> issued_by db (snd (insert_each e i q ws db)) \<noteq> [])"
proof (induction ws arbitrary: i db)
  case Nil
  then show ?case by (simp add: issued_only_refl)
next
  case (Cons w ws)
  let ?x = "Exec e i db q (sql_insert (Height w) (WitnessData w) (Status w))"
  obtain r d1 where x: "?x = (r, d1)" by (cases ?x)
  from Exec_insert_step[of e i db q "Height w" "WitnessData w" "Status w"] x
  have t: "maxExecutionTime d1 = maxExecutionTime db" and s: "issued d1 = issued db @ [q]"
    by simp_all
  have "issued_only P d1 (snd (insert_each e i q (w # ws) db))"
  proof (cases r)
    case (Inl err)
    with x show ?thesis by (simp add: issued_only_refl)
  next
    case (Inr res)
    with x Cons.IH[of d1 "Suc i"] show ?thesis by simp
  qed
  from step_then[OF t s assms this] show ?case by simp
qed

lemma update_each_plain:
  assumes "P q"
  shows "issued_only P db (snd (update_each e i q a ws db))"
proof (induction ws arbitrary: i db)
  case Nil
  then show ?case by (simp add: issued_only_refl)
next
  case (Cons w ws)
  let ?x = "Exec e i db q (sql_update_status a (Height w))"
  obtain r d1 where x: "?x = (r, d1)" by (cases ?x)
  from Exec_update_step[of e i db q a "Height w"] x
  have t: "maxExecutionTime d1 = maxExecutionTime db" and s: "issued d1 = issued db @ [q]"
    by simp_all
  have "issued_only P d1 (snd (update_each e i q a (w # ws) db))"
  proof (cases r)
    case (Inl err)
    with x show ?thesis by (simp add: tx_Exec_def issued_only_refl)
  next
    case (Inr res)
    with x Cons.IH[of d1 "Suc i"] show ?thesis by (simp add: tx_Exec_def)
  qed
  from step_then[OF t s assms this] show ?case by simp
qed

lemma claim_rows_plain:
  assumes "P (''UPDATE '' @ table m @ '' SET status = ?, updated_at = NOW() WHERE height = ?'')"
  shows "issued_only P db1 (snd (claim_rows conv m e a (r, db1)))"
proof (cases r)
  case (Inl err)
  then show ?thesis by (simp add: claim_rows_def issued_only_refl)
next
  case (Inr rs)
  show ?thesis
  proof (cases "scan_rows e 0 [] rs")
    case (Inl err)
    with Inr show ?thesis by (simp add: claim_rows_def issued_only_refl)
  next
    case scanned: (Inr witnesses)
    show ?thesis
    proof (cases "length witnesses = 0")
      case True
      with Inr scanned show ?thesis by (simp add: claim_rows_def issued_only_refl)
    next
      case False
      let ?u = "update_each e 1
                  (''UPDATE '' @ table m @ '' SET status = ?, updated_at = NOW() WHERE height = ?'')
                  a witnesses db1"
      obtain x d2 where u: "?u = (x, d2)" by (cases ?u)
      from update_each_plain[where P = P and db = db1 and e = e and i = 1 and a = a
          and ws = witnesses, OF assms] u
      have "issued_only P db1 d2" by simp
      with Inr scanned False u show ?thesis
        by (cases x) (simp_all add: claim_rows_def)
    qed
  qed
qed

lemma deferred_plain:
  "issued_only P db (snd r) \<Longrightarrow> issued_only P db (snd (deferred tx r))"
  by (auto simp: deferred_def Rollback_def Commit_def issued_only_rows split: prod.splits sum.splits)

lemma claim_plain:
  assumes q: "plain db q"
  shows "issued_only (plain db) db
           (snd (case BeginTransaction e db of
                   Inl err \<Rightarrow> (Inl (SqlError err), db)
                 | Inr tx \<Rightarrow> deferred tx (claim_rows conv m e a (tx_Query e 0 db q stmt)))) \<and>
         (begin_err e = None \<longrightarrow>
            issued_by db
              (snd (case BeginTransaction e db of
                      Inl err \<Rightarrow> (Inl (SqlError err), db)
                    | Inr tx \<Rightarrow> deferred tx (claim_rows conv m e a (tx_Query e 0 db q stmt)))) \<noteq> [])"
proof (cases "BeginTransaction e db")
  case (Inl err)
  then have "begin_err e \<noteq> None" by (auto simp: BeginTransaction_def split: option.splits)
  with Inl show ?thesis by (auto simp: issued_only_refl)
next
  case (Inr tx)
  obtain r d1 where x: "tx_Query e 0 db q stmt = (r, d1)" by (cases "tx_Query e 0 db q stmt")
  from Query_step[of e 0 db q stmt] x
  have t: "maxExecutionTime d1 = maxExecutionTime db" and s: "issued d1 = issued db @ [q]"
    by (simp_all add: tx_Query_def)
  have "issued_only (plain db) d1 (snd (claim_rows conv m e a (r, d1)))"
    by (rule claim_rows_plain) (rule plain_texts)
  then have "issued_only (plain db) d1 (snd (deferred tx (claim_rows conv m e a (r, d1))))"
    by (rule deferred_plain)
  from step_then[OF t s q this] Inr x show ?thesis by simp
qed

text \<open>
  C6, as amended.  The execution-time hint is carried by every statement that goes
  through \<^verbatim>\<open>QueryWithTimeout\<close> or \<^verbatim>\<open>QueryRowWithTimeout\<close>: the selects of the six reads
  outside transactions, each of which issues at least one.  The inserts of
  \<^verbatim>\<open>CreateBatchWitness\<close>, the update of \<^verbatim>\<open>UpdateBatchWitnessStatus\<close> and the select and
  updates of both claim transactions go through \<^verbatim>\<open>Exec\<close>, \<^verbatim>\<open>tx.Query\<close> and \<^verbatim>\<open>tx.Exec\<close>:
  none of them carries the hint.
\<close>

theorem hint_on_timeout_queries_only:
  "(issued_only (carries_hint db) db (snd (GetLatestBatchWitnessHeight conv m e db)) \<and>
    issued_by db (snd (GetLatestBatchWitnessHeight conv m e db)) \<noteq> []) \<and>
   (issued_only (carries_hint db) db (snd (GetBatchWitnessByHeight conv m e db height)) \<and>
    issued_by db (snd (GetBatchWitnessByHeight conv m e db height)) \<noteq> []) \<and>
   (issued_only (carries_hint db) db (snd (GetLatestBatchWitness conv m e db)) \<and>
    issued_by db (snd (GetLatestBatchWitness conv m e db)) \<noteq> []) \<and>
   (issued_only (carries_hint db) db (snd (GetLatestBatchWitnessByStatus conv m e db status)) \<and>
    issued_by db (snd (GetLatestBatchWitnessByStatus conv m e db status)) \<noteq> []) \<and>
   (issued_only (carries_hint db) db (snd (GetAllBatchHeightsByStatus conv m e db status limit offset)) \<and>
    issued_by db (snd (GetAllBatchHeightsByStatus conv m e db status limit offset)) \<noteq> []) \<and>
   (issued_only (carries_hint db) db (snd (GetRowCounts conv m e db)) \<and>
    issued_by db (snd (GetRowCounts conv m e db)) \<noteq> []) \<and>
   (issued_only (plain db) db (snd (CreateBatchWitness m e db witness)) \<and>
    (witness \<noteq> [] \<longrightarrow> issued_by db (snd (CreateBatchWitness m e db witness)) \<noteq> [])) \<and>
   (issued_only (plain db) db (snd (UpdateBatchWitnessStatus m e db w status)) \<and>
    issued_by db (snd (UpdateBatchWitnessStatus m e db w status)) \<noteq> []) \<and>
   (issued_only (plain db) db
      (snd (GetAndUpdateBatchesWitnessByStatus conv m e db beforeStatus afterStatus count)) \<and>
    (begin_err e = None \<longrightarrow>
       issued_by db (snd (GetAndUpdateBatchesWitnessByStatus conv m e db beforeStatus afterStatus count))
         \<noteq> [])) \<and>
   (issued_only (plain db) db
      (snd (GetAndUpdateBatchesWitnessByHeight conv m e db height beforeStatus afterStatus)) \<and>
    (begin_err e = None \<longrightarrow>
       issued_by db (snd (GetAndUpdateBatchesWitnessByHeight conv m e db height beforeStatus afterStatus))
         \<noteq> []))"
proof -
  have a: "issued_only (carries_hint db) db (snd (GetLatestBatchWitnessHeight conv m e db)) \<and>
    issued_by db (snd (GetLatestBatchWitnessHeight conv m e db)) \<noteq> []"
    unfolding snd_GetLatestBatchWitnessHeight by (rule single_hinted)
  have b: "issued_only (carries_hint db) db (snd (GetBatchWitnessByHeight conv m e db height)) \<and>
    issued_by db (snd (GetBatchWitnessByHeight conv m e db height)) \<noteq> []"
    by (rule GetBatchWitnessByHeight_hinted)
  have c: "issued_only (carries_hint db) db (snd (GetLatestBatchWitness conv m e db)) \<and>
    issued_by db (snd (GetLatestBatchWitness conv m e db)) \<noteq> []"
    by (rule GetLatestBatchWitness_hinted)
  have d: "issued_only (carries_hint db) db (snd (GetLatestBatchWitnessByStatus conv m e db status)) \<and>
    issued_by db (snd (GetLatestBatchWitnessByStatus conv m e db status)) \<noteq> []"
    unfolding snd_GetLatestBatchWitnessByStatus by (rule single_hinted)
  have f: "issued_only (carries_hint db) db (snd (GetAllBatchHeightsByStatus conv m e db status limit offset)) \<and>
    issued_by db (snd (GetAllBatchHeightsByStatus conv m e db status limit offset)) \<noteq> []"
    unfolding snd_GetAllBatchHeightsByStatus by (rule single_hinted)
  have g: "issued_only (carries_hint db) db (snd (GetRowCounts conv m e db)) \<and>
    issued_by db (snd (GetRowCounts conv m e db)) \<noteq> []"
    by (rule GetRowCounts_hinted)
  have h: "issued_only (plain db) db (snd (CreateBatchWitness m e db witness)) \<and>
    (witness \<noteq> [] \<longrightarrow> issued_by db (snd (CreateBatchWitness m e db witness)) \<noteq> [])"
  proof (cases "witness = []")
    case True
    then show ?thesis by (simp add: CreateBatchWitness_def issued_only_refl)
  next
    case False
    have "plain db (''INSERT INTO '' @ table m @
              '' (height, witness_data, status, created_at, updated_at) VALUES (?, ?, ?, NOW(), NOW())'')"
      by (rule plain_texts)
    from insert_each_plain[where P = "plain db", OF this, of db e 0 witness] False
    show ?thesis by (simp add: CreateBatchWitness_def)
  qed
  have i: "issued_only (plain db) db (snd (UpdateBatchWitnessStatus m e db w status)) \<and>
    issued_by db (snd (UpdateBatchWitnessStatus m e db w status)) \<noteq> []"
  proof -
    let ?q = "''UPDATE '' @ table m @ '' SET status = ?, updated_at = NOW() WHERE height = ?''"
    have s: "snd (UpdateBatchWitnessStatus m e db w status)
               = snd (Exec e 0 db ?q (sql_update_status status (Height w)))"
      unfolding UpdateBatchWitnessStatus_def by (simp split: prod.splits sum.splits)
    have p: "plain db ?q" by (rule plain_texts)
    note x = Exec_update_step[of e 0 db ?q status "Height w"]
    from step_then[where P = "plain db" and q = ?q, OF conjunct1[OF x] conjunct2[OF x] p issued_only_refl]
    show ?thesis unfolding s .
  qed
  have j: "issued_only (plain db) db
      (snd (GetAndUpdateBatchesWitnessByStatus conv m e db beforeStatus afterStatus count)) \<and>
    (begin_err e = None \<longrightarrow>
       issued_by db (snd (GetAndUpdateBatchesWitnessByStatus conv m e db beforeStatus afterStatus count))
         \<noteq> [])"
    unfolding GetAndUpdateBatchesWitnessByStatus_def by (rule claim_plain) (rule plain_texts)
  have k: "issued_only (plain db) db
      (snd (GetAndUpdateBatchesWitnessByHeight conv m e db height beforeStatus afterStatus)) \<and>
    (begin_err e = None \<longrightarrow>
       issued_by db (snd (GetAndUpdateBatchesWitnessByHeight conv m e db height beforeStatus afterStatus))
         \<noteq> [])"
    unfolding GetAndUpdateBatchesWitnessByHeight_def by (rule claim_plain) (rule plain_texts)
  show ?thesis
    using a b c d f g h i j k by - (intro conjI; elim conjE; assumption)
qed

lemma char_of_digits: "char_of (48::nat) = CHR ''0''" "char_of (49::nat) = CHR ''1''"
  by code_simp+

lemma default_hint: "Sprintf_d (Milliseconds 10000000000000) = ''10000000''"
  by (simp add: Sprintf_d_def Milliseconds_def digits.simps char_of_digits)

theorem hint_on_timeout_queries_only_witness:
  "issued_by three_published
     (snd (GetAllBatchHeightsByStatus same_error witness_model quiet three_published StatusPublished 2 0))
     = [''/*+ MAX_EXECUTION_TIME(10000000) */ SELECT height FROM witness WHERE status = ? AND deleted_at IS NULL ORDER BY height ASC LIMIT ? OFFSET ?''] \<and>
   issued_only (carries_hint three_published) three_published
     (snd (GetAllBatchHeightsByStatus same_error witness_model quiet three_published StatusPublished 2 0)) \<and>
   [published 0 9] \<noteq> [] \<and>
   issued_by three_published (snd (CreateBatchWitness witness_model quiet three_published [published 0 9]))
     \<noteq> [] \<and>
   issued_only (plain three_published) three_published
     (snd (CreateBatchWitness witness_model quiet three_published [published 0 9])) \<and>
   begin_err quiet = None \<and>
   issued_by three_published
     (snd (GetAndUpdateBatchesWitnessByStatus same_error witness_model quiet three_published
             StatusPublished StatusReceived 2)) \<noteq> []"
proof -
  note t = hint_on_timeout_queries_only[of three_published same_error witness_model quiet 5
      StatusPublished 2 0 "[published 0 9]" "published 0 5" StatusPublished StatusReceived 2]
  have l: "issued_by three_published
     (snd (GetAllBatchHeightsByStatus same_error witness_model quiet three_published StatusPublished 2 0))
     = [''/*+ MAX_EXECUTION_TIME(10000000) */ SELECT height FROM witness WHERE status = ? AND deleted_at IS NULL ORDER BY height ASC LIMIT ? OFFSET ?'']"
    by (simp add: model_defs sample_defs issued_by_def default_hint StatusPublished_def)
  have ne: "[published 0 9] \<noteq> []" by simp
  have q: "begin_err quiet = None" by (simp add: quiet_def)
  from t have a: "issued_only (carries_hint three_published) three_published
     (snd (GetAllBatchHeightsByStatus same_error witness_model quiet three_published StatusPublished 2 0))"
    by - (elim conjE, assumption)
  from t have "[published 0 9] \<noteq> [] \<longrightarrow>
      issued_by three_published (snd (CreateBatchWitness witness_model quiet three_published [published 0 9]))
     \<noteq> []"
    by - (elim conjE, assumption)
  with ne have b: "issued_by three_published
      (snd (CreateBatchWitness witness_model quiet three_published [published 0 9])) \<noteq> []"
    by (rule rev_mp)
  from t have c: "issued_only (plain three_published) three_published
     (snd (CreateBatchWitness witness_model quiet three_published [published 0 9]))"
    by - (elim conjE, assumption)
  from t have "begin_err quiet = None \<longrightarrow>
     issued_by three_published
     (snd (GetAndUpdateBatchesWitnessByStatus same_error witness_model quiet three_published
             StatusPublished StatusReceived 2)) \<noteq> []"
    by - (elim conjE, assumption)
  with q have d: "issued_by three_published
     (snd (GetAndUpdateBatchesWitnessByStatus same_error witness_model quiet three_published
             StatusPublished StatusReceived 2)) \<noteq> []"
    by (rule rev_mp)
  from l a ne b c q d show ?thesis by - (intro conjI, assumption+)
qed

theorem hint_on_every_statement_counterexample:
  "issued_by three_published (snd (CreateBatchWitness witness_model quiet three_published [published 0 9]))
     = [''INSERT INTO witness (height, witness_data, status, created_at, updated_at) VALUES (?, ?, ?, NOW(), NOW())''] \<and>
   \<not> carries_hint three_published
       ''INSERT INTO witness (height, witness_data, status, created_at, updated_at) VALUES (?, ?, ?, NOW(), NOW())'' \<and>
   issued_by three_published
     (snd (UpdateBatchWitnessStatus witness_model quiet three_published (published 0 5) StatusFinished))
     = [''UPDATE witness SET status = ?, updated_at = NOW() WHERE height = ?''] \<and>
   \<not> carries_hint three_published ''UPDATE witness SET status = ?, updated_at = NOW() WHERE height = ?'' \<and>
   issued_by three_published
     (snd (GetAndUpdateBatchesWitnessByStatus same_error witness_model quiet three_published
             StatusPublished StatusReceived 1))
     = [''SELECT id, created_at, updated_at, deleted_at, height, witness_data, status FROM witness WHERE status = ? AND deleted_at IS NULL ORDER BY height ASC LIMIT ? FOR UPDATE'',
        ''UPDATE witness SET status = ?, updated_at = NOW() WHERE height = ?''] \<and>
   \<not> carries_hint three_published
       ''SELECT id, created_at, updated_at, deleted_at, height, witness_data, status FROM witness WHERE status = ? AND deleted_at IS NULL ORDER BY height ASC LIMIT ? FOR UPDATE''"
  by (simp add: model_defs sample_defs issued_by_def carries_hint_def
      StatusPublished_def StatusReceived_def StatusFinished_def)

section \<open>Successive claims\<close>

lemma by_status_selected:
  assumes "GetAndUpdateBatchesWitnessByStatus conv m e db b a count = (Inr ws, db')"
    and "w \<in> set ws"
  shows "w \<in> set (rows db) \<and> Status w = b \<and> DeletedAt w = None"
proof -
  from by_status_success[OF assms(1)]
  have "ws = take (nat count) (sort_key Height (filter (\<lambda>w. Status w = b \<and> DeletedAt w = None) (rows db)))"
    by blast
  with assms(2) have "w \<in> set (filter (\<lambda>w. Status w = b \<and> DeletedAt w = None) (rows db))"
    by (metis in_set_takeD set_sort)
  then show ?thesis by simp
qed

lemma unclaimed_rows_kept:
  assumes "list_all2 (\<lambda>r r'. if Height r \<in> set (map Height ws)
                              then advanced clock i n a r r' else r' = r) old new"
    and "r' \<in> set new" and "Height r' \<notin> set (map Height ws)"
  shows "r' \<in> set old"
proof -
  from assms(2) obtain j where j: "j < length new" and r': "new ! j = r'"
    by (auto simp: in_set_conv_nth)
  from list_all2_lengthD[OF assms(1)] j have jo: "j < length old" by simp
  from list_all2_nthD2[OF assms(1) j] r'
  have rel: "if Height (old ! j) \<in> set (map Height ws)
             then advanced clock i n a (old ! j) r' else r' = old ! j"
    by (auto split: if_splits)
  show ?thesis
  proof (cases "Height (old ! j) \<in> set (map Height ws)")
    case True
    with rel have "Height r' = Height (old ! j)" by (simp add: advanced_fields)
    with True assms(3) show ?thesis by simp
  next
    case False
    with rel jo show ?thesis by simp
  qed
qed

text \<open>
  When two claims by status for the same transition, from \<open>beforeStatus\<close> to a different
  \<open>afterStatus\<close>, succeed one after the other, no height and no record is returned by
  both, and the records of the second are rows that already matched before the first.
\<close>

theorem successive_claims_disjoint:
  assumes "GetAndUpdateBatchesWitnessByStatus conv m e db beforeStatus afterStatus count1 = (Inr ws1, db1)"
    and "GetAndUpdateBatchesWitnessByStatus conv2 m2 e2 db1 beforeStatus afterStatus count2 = (Inr ws2, db2)"
    and "beforeStatus \<noteq> afterStatus"
  shows "set (map Height ws1) \<inter> set (map Height ws2) = {} \<and>
         set ws1 \<inter> set ws2 = {} \<and>
         (\<forall>w\<in>set ws2. w \<in> set (rows db) \<and> Status w = beforeStatus \<and> DeletedAt w = None)"
proof -
  from by_status_success[OF assms(1)]
  have rel: "list_all2 (\<lambda>r r'. if Height r \<in> set (map Height ws1)
                            then advanced (now e) 1 (length ws1) afterStatus r r' else r' = r)
           (rows db) (rows db1)"
    by blast
  have fresh: "Height w \<notin> set (map Height ws1)" if w: "w \<in> set ws2" for w
  proof
    assume h: "Height w \<in> set (map Height ws1)"
    from by_status_selected[OF assms(2) w] have in1: "w \<in> set (rows db1)" and s: "Status w = beforeStatus"
      by simp_all
    from claimed_heights_left_status[OF rel in1 h] s assms(3) show False by simp
  qed
  have "h \<notin> set (map Height ws1)" if "h \<in> set (map Height ws2)" for h
  proof -
    from that obtain w where "w \<in> set ws2" and "h = Height w" by auto
    with fresh show ?thesis by simp
  qed
  then have heights: "set (map Height ws1) \<inter> set (map Height ws2) = {}"
    by blast
  then have records: "set ws1 \<inter> set ws2 = {}" by auto
  have old: "\<forall>w\<in>set ws2. w \<in> set (rows db) \<and> Status w = beforeStatus \<and> DeletedAt w = None"
  proof
    fix w assume w: "w \<in> set ws2"
    from by_status_selected[OF assms(2) w]
    have in1: "w \<in> set (rows db1)" and s: "Status w = beforeStatus \<and> DeletedAt w = None"
      by simp_all
    from unclaimed_rows_kept[OF rel in1 fresh[OF w]] s
    show "w \<in> set (rows db) \<and> Status w = beforeStatus \<and> DeletedAt w = None" by simp
  qed
  from heights records old show ?thesis by simp
qed

theorem successive_claims_disjoint_witness:
  "fst (GetAndUpdateBatchesWitnessByStatus same_error witness_model quiet three_published
          StatusPublished StatusReceived 2) = Inr [published 2 3, published 1 5] \<and>
   fst (GetAndUpdateBatchesWitnessByStatus same_error witness_model quiet
          (snd (GetAndUpdateBatchesWitnessByStatus same_error witness_model quiet three_published
                  StatusPublished StatusReceived 2))
          StatusPublished StatusReceived 2) = Inr [published 3 7] \<and>
   StatusPublished \<noteq> StatusReceived \<and>
   set [published 2 3, published 1 5] \<inter> set [published 3 7] = {}"
proof -
  let ?run1 = "GetAndUpdateBatchesWitnessByStatus same_error witness_model quiet three_published
          StatusPublished StatusReceived 2"
  let ?run2 = "GetAndUpdateBatchesWitnessByStatus same_error witness_model quiet (snd ?run1)
          StatusPublished StatusReceived 2"
  have r1: "fst ?run1 = Inr [published 2 3, published 1 5]"
    by (simp add: model_defs sample_defs StatusPublished_def StatusReceived_def)
  have r2: "fst ?run2 = Inr [published 3 7]"
    by (simp add: model_defs sample_defs StatusPublished_def StatusReceived_def)
  have ne: "StatusPublished \<noteq> StatusReceived" by (simp add: StatusPublished_def StatusReceived_def)
  from r1 have e1: "?run1 = (Inr [published 2 3, published 1 5], snd ?run1)" by (simp add: prod_eq_iff)
  from r2 have e2: "?run2 = (Inr [published 3 7], snd ?run2)" by (simp add: prod_eq_iff)
  from successive_claims_disjoint[OF e1 e2 ne]
  have "set [published 2 3, published 1 5] \<inter> set [published 3 7] = {}" by blast
  with r1 r2 ne show ?thesis by - (intro conjI, assumption+)
qed

end
